theory Spec2Isabelle
  imports Complex_Main "HOL-Library.Char_ord" "HOL-Library.List_Lexorder"
begin

section \<open>Manifest validation (validate\_manifest.py)\<close>

text \<open>
  A shallow embedding of \<^verbatim>\<open>validate_manifest\<close> from
  \<^verbatim>\<open>invoices-processing/validate_manifest.py\<close>, taken from the point where
  \<^verbatim>\<open>json.load\<close> has returned \<^verbatim>\<open>data\<close>. The output of the
  \<^verbatim>\<open>print\<close> calls is not modelled, the exceptions of their string conversions are.
\<close>

subsection \<open>Python values\<close>

text \<open>The exceptions the body of the function can raise.\<close>

datatype error = KeyError | TypeError | OverflowError | ValueError

text \<open>
  A Python \<^verbatim>\<open>float\<close> is an IEEE-754 binary64 number: a finite one is given by the
  rational it denotes, the others are the two infinities and NaN. The sign of zero is not
  kept: no operation of the function (addition, subtraction, \<^verbatim>\<open>round\<close>, \<^verbatim>\<open>abs\<close>,
  comparison) tells the two zeros apart.
\<close>

datatype pyfloat = Fin rat | PosInf | NegInf | NaN

text \<open>A Python number is an unbounded \<^verbatim>\<open>int\<close> or a \<^verbatim>\<open>float\<close>.\<close>

datatype pynum = PInt int | PFloat pyfloat

text \<open>
  The values of the fields of a record: JSON strings and JSON numbers, as the data model
  of the manifest has them.
\<close>

datatype jvalue = JStr string | JNum pynum

subsection \<open>Binary64 rounding\<close>

function ilog2 :: "int \<Rightarrow> int" where
  "ilog2 n = (if n < 2 then 0 else 1 + ilog2 (n div 2))"
  by pat_completeness auto
termination
  by (relation "measure nat") auto

declare ilog2.simps [simp del]

definition pow2 :: "int \<Rightarrow> rat" where
  "pow2 k = (if 0 \<le> k then 2 ^ nat k else 1 / 2 ^ nat (- k))"

text \<open>\<open>flog2 a\<close> is the integer \<open>e\<close> with \<open>2^e \<le> a < 2^(e+1)\<close>, for \<open>a > 0\<close>.\<close>

definition flog2 :: "rat \<Rightarrow> int" where
  "flog2 a =
     (let (n, d) = quotient_of a;
          k = ilog2 n - ilog2 d
      in if pow2 k \<le> a then k else k - 1)"

text \<open>Rounding to the nearest integer, ties to the even one.\<close>

definition round_half_even :: "rat \<Rightarrow> int" where
  "round_half_even x =
     (let f = \<lfloor>x\<rfloor>; d = x - of_int f
      in if d < 1 / 2 then f
         else if 1 / 2 < d then f + 1
         else if even f then f else f + 1)"

text \<open>
  The binary64 number nearest to a rational (ties to even): 53 bits of precision, the
  least exponent of a subnormal is \<open>-1074\<close>, and a result of \<open>2^1024\<close> or more is an
  infinity.
\<close>

definition to_double :: "rat \<Rightarrow> pyfloat" where
  "to_double x =
     (if x = 0 then Fin 0
      else let a = \<bar>x\<bar>; e = flog2 a
           in if 1024 \<le> e then (if 0 < x then PosInf else NegInf)
              else let q = max (e - 52) (- 1074);
                       r = of_int (round_half_even (a / pow2 q)) * pow2 q
                   in if pow2 1024 \<le> r then (if 0 < x then PosInf else NegInf)
                      else Fin (if 0 < x then r else - r))"

subsection \<open>Arithmetic of Python numbers\<close>

fun fneg :: "pyfloat \<Rightarrow> pyfloat" where
  "fneg (Fin r) = Fin (- r)"
| "fneg PosInf = NegInf"
| "fneg NegInf = PosInf"
| "fneg NaN = NaN"

fun fadd :: "pyfloat \<Rightarrow> pyfloat \<Rightarrow> pyfloat" where
  "fadd NaN _ = NaN"
| "fadd _ NaN = NaN"
| "fadd PosInf NegInf = NaN"
| "fadd NegInf PosInf = NaN"
| "fadd PosInf _ = PosInf"
| "fadd _ PosInf = PosInf"
| "fadd NegInf _ = NegInf"
| "fadd _ NegInf = NegInf"
| "fadd (Fin a) (Fin b) = to_double (a + b)"

definition fsub :: "pyfloat \<Rightarrow> pyfloat \<Rightarrow> pyfloat" where
  "fsub a b = fadd a (fneg b)"

fun fabs :: "pyfloat \<Rightarrow> pyfloat" where
  "fabs (Fin r) = Fin \<bar>r\<bar>"
| "fabs PosInf = PosInf"
| "fabs NegInf = PosInf"
| "fabs NaN = NaN"

text \<open>Converting an \<^verbatim>\<open>int\<close> to a \<^verbatim>\<open>float\<close> raises when the result is not finite.\<close>

definition int_to_float :: "int \<Rightarrow> error + pyfloat" where
  "int_to_float i = (case to_double (of_int i) of Fin r \<Rightarrow> Inr (Fin r) | _ \<Rightarrow> Inl OverflowError)"

fun num_add :: "pynum \<Rightarrow> pynum \<Rightarrow> error + pynum" where
  "num_add (PInt i) (PInt j) = Inr (PInt (i + j))"
| "num_add (PInt i) (PFloat g) =
     (case int_to_float i of Inl e \<Rightarrow> Inl e | Inr f \<Rightarrow> Inr (PFloat (fadd f g)))"
| "num_add (PFloat f) (PInt j) =
     (case int_to_float j of Inl e \<Rightarrow> Inl e | Inr g \<Rightarrow> Inr (PFloat (fadd f g)))"
| "num_add (PFloat f) (PFloat g) = Inr (PFloat (fadd f g))"

fun num_sub :: "pynum \<Rightarrow> pynum \<Rightarrow> error + pynum" where
  "num_sub (PInt i) (PInt j) = Inr (PInt (i - j))"
| "num_sub (PInt i) (PFloat g) =
     (case int_to_float i of Inl e \<Rightarrow> Inl e | Inr f \<Rightarrow> Inr (PFloat (fsub f g)))"
| "num_sub (PFloat f) (PInt j) =
     (case int_to_float j of Inl e \<Rightarrow> Inl e | Inr g \<Rightarrow> Inr (PFloat (fsub f g)))"
| "num_sub (PFloat f) (PFloat g) = Inr (PFloat (fsub f g))"

fun num_abs :: "pynum \<Rightarrow> pynum" where
  "num_abs (PInt i) = PInt \<bar>i\<bar>"
| "num_abs (PFloat f) = PFloat (fabs f)"

text \<open>
  \<^verbatim>\<open>round(x, 2)\<close>: an \<^verbatim>\<open>int\<close> is returned as it is; NaN and the infinities round
  to themselves; a finite \<^verbatim>\<open>float\<close> is rounded, from its exact value and with ties to
  even, to two decimals, and the decimal is converted back to the nearest \<^verbatim>\<open>float\<close>.
\<close>

fun num_round2 :: "pynum \<Rightarrow> pynum" where
  "num_round2 (PInt i) = PInt i"
| "num_round2 (PFloat (Fin r)) = PFloat (to_double (of_int (round_half_even (r * 100)) / 100))"
| "num_round2 (PFloat f) = PFloat f"

text \<open>
  Comparisons of numbers are exact, also between an \<^verbatim>\<open>int\<close> and a \<^verbatim>\<open>float\<close>, and
  every comparison with NaN is false.
\<close>

fun fless :: "pyfloat \<Rightarrow> pyfloat \<Rightarrow> bool" where
  "fless NaN _ = False"
| "fless _ NaN = False"
| "fless (Fin a) (Fin b) = (a < b)"
| "fless (Fin a) PosInf = True"
| "fless NegInf (Fin b) = True"
| "fless NegInf PosInf = True"
| "fless _ _ = False"

fun feq :: "pyfloat \<Rightarrow> pyfloat \<Rightarrow> bool" where
  "feq NaN _ = False"
| "feq _ NaN = False"
| "feq a b = (a = b)"

fun num_float :: "pynum \<Rightarrow> pyfloat" where
  "num_float (PInt i) = Fin (of_int i)"
| "num_float (PFloat f) = f"

definition num_gt :: "pynum \<Rightarrow> pynum \<Rightarrow> bool" where
  "num_gt a b = fless (num_float b) (num_float a)"


definition num_eq :: "pynum \<Rightarrow> pynum \<Rightarrow> bool" where
  "num_eq a b = feq (num_float a) (num_float b)"

text \<open>The literal \<^verbatim>\<open>0.01\<close> is the \<^verbatim>\<open>float\<close> nearest to one hundredth.\<close>

definition tolerance :: pynum where
  "tolerance = PFloat (to_double (1 / 100))"

subsection \<open>Operators on values\<close>

text \<open>
  \<^verbatim>\<open>+\<close> adds numbers and concatenates strings; \<^verbatim>\<open>-\<close>, \<^verbatim>\<open>round\<close> and \<^verbatim>\<open>abs\<close>
  are defined on numbers only. Every other combination raises \<^verbatim>\<open>TypeError\<close>.
\<close>

fun py_add :: "jvalue \<Rightarrow> jvalue \<Rightarrow> error + jvalue" where
  "py_add (JNum a) (JNum b) = (case num_add a b of Inl e \<Rightarrow> Inl e | Inr c \<Rightarrow> Inr (JNum c))"
| "py_add (JStr a) (JStr b) = Inr (JStr (a @ b))"
| "py_add _ _ = Inl TypeError"

fun py_sub :: "jvalue \<Rightarrow> jvalue \<Rightarrow> error + jvalue" where
  "py_sub (JNum a) (JNum b) = (case num_sub a b of Inl e \<Rightarrow> Inl e | Inr c \<Rightarrow> Inr (JNum c))"
| "py_sub _ _ = Inl TypeError"

fun py_round2 :: "jvalue \<Rightarrow> error + jvalue" where
  "py_round2 (JNum a) = Inr (JNum (num_round2 a))"
| "py_round2 (JStr _) = Inl TypeError"

fun py_abs :: "jvalue \<Rightarrow> error + jvalue" where
  "py_abs (JNum a) = Inr (JNum (num_abs a))"
| "py_abs (JStr _) = Inl TypeError"

text \<open>\<^verbatim>\<open>x > 0.01\<close> and, for the specification, \<^verbatim>\<open>x <= 0.01\<close>.\<close>

fun py_gt_tolerance :: "jvalue \<Rightarrow> error + bool" where
  "py_gt_tolerance (JNum a) = Inr (num_gt a tolerance)"
| "py_gt_tolerance (JStr _) = Inl TypeError"


text \<open>
  The comparison of the membership tests (\<^verbatim>\<open>in\<close> on the set and on the list, the
  lookup of a key in a dictionary): the two objects are the same one, or they are equal
  with \<^verbatim>\<open>==\<close>. A string equals the same string only; numbers are compared by value
  (so \<^verbatim>\<open>1 == 1.0\<close>); NaN is not equal to itself, but \<^verbatim>\<open>json.load\<close> returns one and
  the same object for every \<^verbatim>\<open>NaN\<close> of the document, so that a membership test finds
  it by identity.
\<close>

fun py_eq :: "jvalue \<Rightarrow> jvalue \<Rightarrow> bool" where
  "py_eq (JStr a) (JStr b) = (a = b)"
| "py_eq (JNum a) (JNum b) = (num_eq a b \<or> (a = PFloat NaN \<and> b = PFloat NaN))"
| "py_eq _ _ = False"

definition py_in :: "jvalue \<Rightarrow> jvalue list \<Rightarrow> bool" where
  "py_in x xs = list_ex (py_eq x) xs"

text \<open>
  Formatting a value in an f-string or printing it converts it to a string, and the
  conversion of an \<^verbatim>\<open>int\<close> of more than 4300 decimal digits raises \<^verbatim>\<open>ValueError\<close>
  (the limit of Python 3.11 on integer string conversion). \<open>printable v\<close> says that
  \<open>v\<close> can be converted.
\<close>

definition int_max_str_digits :: nat where
  "int_max_str_digits = 4300"

definition printable :: "jvalue \<Rightarrow> bool" where
  "printable v =
     (case v of JNum (PInt i) \<Rightarrow> \<bar>i\<bar> < 10 ^ int_max_str_digits | _ \<Rightarrow> True)"

subsection \<open>Records and dictionaries\<close>

text \<open>
  A record of the manifest is a JSON object: a dictionary from field names to values.
  \<^verbatim>\<open>field in record\<close> is \<open>r field \<noteq> None\<close>.
\<close>

type_synonym invoice = "string \<rightharpoonup> jvalue"

text \<open>\<^verbatim>\<open>record.get(field, default)\<close>\<close>

definition get :: "invoice \<Rightarrow> string \<Rightarrow> jvalue \<Rightarrow> jvalue" where
  "get r field dflt = (case r field of None \<Rightarrow> dflt | Some v \<Rightarrow> v)"

text \<open>\<^verbatim>\<open>record[field]\<close>\<close>

definition subscript :: "invoice \<Rightarrow> string \<Rightarrow> error + jvalue" where
  "subscript r field = (case r field of None \<Rightarrow> Inl KeyError | Some v \<Rightarrow> Inr v)"

text \<open>
  The dictionaries \<^verbatim>\<open>currencies\<close> and \<^verbatim>\<open>vendors\<close> are keyed by values: a list of
  the entries in the order of their insertion, a key found with \<^verbatim>\<open>==\<close>.
\<close>

type_synonym counts = "(jvalue \<times> nat) list"

fun dict_get :: "counts \<Rightarrow> jvalue \<Rightarrow> nat \<Rightarrow> nat" where
  "dict_get [] k dflt = dflt"
| "dict_get ((k', v) # d) k dflt = (if py_eq k k' then v else dict_get d k dflt)"

fun dict_set :: "counts \<Rightarrow> jvalue \<Rightarrow> nat \<Rightarrow> counts" where
  "dict_set [] k v = [(k, v)]"
| "dict_set ((k', v') # d) k v = (if py_eq k k' then (k', v) # d else (k', v') # dict_set d k v)"

subsection \<open>The checks of one record\<close>

text \<open>
  The local variables of the function. The diagnostics are kept as the data their
  messages are formatted from: a missing field as the index of the record and the name of
  the field, a duplicate as the repeated ID, a math error as the ID, the calculated and
  the recorded total and the three components, a sequence gap as the expected ID. The set
  \<^verbatim>\<open>invoice_ids\<close> is only tested for membership: it is the list of its members.
\<close>

type_synonym math_error = "jvalue \<times> jvalue \<times> jvalue \<times> jvalue \<times> jvalue \<times> jvalue"

record checks =
  invoice_ids :: "jvalue list"
  missing_fields :: "(nat \<times> string) list"
  math_errors :: "math_error list"
  duplicate_ids :: "jvalue list"

definition init_checks :: checks where
  "init_checks = \<lparr>invoice_ids = [], missing_fields = [], math_errors = [], duplicate_ids = []\<rparr>"

definition required_fields :: "string list" where
  "required_fields =
     [''invoice_id'', ''vendor'', ''currency'', ''invoice_date'',
      ''due_date'', ''terms'', ''subtotal'', ''tax'', ''shipping'',
      ''total'', ''file_path'']"

text \<open>\<^verbatim>\<open>for field in required_fields: if field not in record: missing_fields.append(...)\<close>\<close>

definition check_fields :: "nat \<Rightarrow> invoice \<Rightarrow> (nat \<times> string) list" where
  "check_fields i r = map (Pair i) (filter (\<lambda>field. r field = None) required_fields)"

text \<open>\<^verbatim>\<open>calculated_total = round(subtotal + tax + shipping, 2)\<close>\<close>

definition calculated_total :: "invoice \<Rightarrow> error + jvalue" where
  "calculated_total r =
     (case py_add (get r ''subtotal'' (JNum (PInt 0))) (get r ''tax'' (JNum (PInt 0))) of
        Inl e \<Rightarrow> Inl e
      | Inr s \<Rightarrow>
          (case py_add s (get r ''shipping'' (JNum (PInt 0))) of
             Inl e \<Rightarrow> Inl e
           | Inr t \<Rightarrow> py_round2 t))"

text \<open>\<^verbatim>\<open>recorded_total = round(total, 2)\<close>\<close>

definition recorded_total :: "invoice \<Rightarrow> error + jvalue" where
  "recorded_total r = py_round2 (get r ''total'' (JNum (PInt 0)))"

text \<open>\<^verbatim>\<open>abs(calculated_total - recorded_total) > 0.01\<close>\<close>

definition exceeds_tolerance :: "jvalue \<Rightarrow> jvalue \<Rightarrow> error + bool" where
  "exceeds_tolerance c t =
     (case py_sub c t of
        Inl e \<Rightarrow> Inl e
      | Inr d \<Rightarrow> (case py_abs d of Inl e \<Rightarrow> Inl e | Inr a \<Rightarrow> py_gt_tolerance a))"

text \<open>
  \<^verbatim>\<open>if inv_id in invoice_ids: duplicate_ids.append(f'Duplicate invoice_id: {inv_id}')\<close>
  \<^verbatim>\<open>else: invoice_ids.add(inv_id)\<close>
\<close>

definition check_duplicate :: "jvalue \<Rightarrow> checks \<Rightarrow> error + checks" where
  "check_duplicate inv_id st =
     (if py_in inv_id (invoice_ids st)
      then (if printable inv_id
            then Inr (st\<lparr>duplicate_ids := duplicate_ids st @ [inv_id]\<rparr>)
            else Inl ValueError)
      else Inr (st\<lparr>invoice_ids := invoice_ids st @ [inv_id]\<rparr>))"

text \<open>
  The check of the total (lines 70 to 82): the entries it appends to \<^verbatim>\<open>math_errors\<close>.
  The message formats the ID, the two totals and the three components.
\<close>

definition check_math :: "invoice \<Rightarrow> jvalue \<Rightarrow> error + math_error list" where
  "check_math r inv_id =
     (let subtotal = get r ''subtotal'' (JNum (PInt 0));
          tax = get r ''tax'' (JNum (PInt 0));
          shipping = get r ''shipping'' (JNum (PInt 0))
      in case calculated_total r of
           Inl e \<Rightarrow> Inl e
         | Inr c \<Rightarrow>
             (case recorded_total r of
                Inl e \<Rightarrow> Inl e
              | Inr t \<Rightarrow>
                  (case exceeds_tolerance c t of
                     Inl e \<Rightarrow> Inl e
                   | Inr b \<Rightarrow>
                       if b
                       then (if list_all printable [inv_id, c, t, subtotal, tax, shipping]
                             then Inr [(inv_id, c, t, subtotal, tax, shipping)]
                             else Inl ValueError)
                       else Inr [])))"

text \<open>The body of the loop over \<^verbatim>\<open>enumerate(data)\<close>, for the record \<open>r\<close> at index \<open>i\<close>.\<close>

definition validate_record :: "nat \<Rightarrow> invoice \<Rightarrow> checks \<Rightarrow> error + checks" where
  "validate_record i r st =
     (let st1 = st\<lparr>missing_fields := missing_fields st @ check_fields i r\<rparr>;
          inv_id = get r ''invoice_id'' (JStr '''')
      in case check_duplicate inv_id st1 of
           Inl e \<Rightarrow> Inl e
         | Inr st2 \<Rightarrow>
             (case check_math r inv_id of
                Inl e \<Rightarrow> Inl e
              | Inr ms \<Rightarrow> Inr (st2\<lparr>math_errors := math_errors st2 @ ms\<rparr>)))"

fun validate_records :: "nat \<Rightarrow> invoice list \<Rightarrow> checks \<Rightarrow> error + checks" where
  "validate_records i [] st = Inr st"
| "validate_records i (r # rs) st =
     (case validate_record i r st of
        Inl e \<Rightarrow> Inl e
      | Inr st' \<Rightarrow> validate_records (Suc i) rs st')"

subsection \<open>The sequence of invoice IDs\<close>

definition digit :: "nat \<Rightarrow> char" where
  "digit d = ''0123456789'' ! d"

text \<open>\<^verbatim>\<open>str(i)\<close> of a natural number.\<close>

function str_nat :: "nat \<Rightarrow> string" where
  "str_nat n = (if n < 10 then [digit n] else str_nat (n div 10) @ [digit (n mod 10)])"
  by pat_completeness auto
termination
  by (relation "measure (\<lambda>n. n)") auto

declare str_nat.simps [simp del]

text \<open>\<^verbatim>\<open>s.zfill(width)\<close> of a string of digits.\<close>

definition zfill :: "nat \<Rightarrow> string \<Rightarrow> string" where
  "zfill width s = replicate (width - length s) CHR ''0'' @ s"

text \<open>\<^verbatim>\<open>[f'INV-2025-{str(i).zfill(4)}' for i in range(1, 121)]\<close>\<close>

definition expected_ids :: "string list" where
  "expected_ids = map (\<lambda>i. ''INV-2025-'' @ zfill 4 (str_nat i)) [1..<121]"

text \<open>\<^verbatim>\<open>[record['invoice_id'] for record in data]\<close>\<close>

fun actual_ids :: "invoice list \<Rightarrow> error + jvalue list" where
  "actual_ids [] = Inr []"
| "actual_ids (r # rs) =
     (case subscript r ''invoice_id'' of
        Inl e \<Rightarrow> Inl e
      | Inr v \<Rightarrow> (case actual_ids rs of Inl e \<Rightarrow> Inl e | Inr vs \<Rightarrow> Inr (v # vs)))"

text \<open>\<^verbatim>\<open>for exp_id in expected_ids: if exp_id not in actual_ids: sequence_gaps.append(...)\<close>\<close>

definition check_sequence :: "jvalue list \<Rightarrow> string list" where
  "check_sequence ids = filter (\<lambda>exp_id. \<not> py_in (JStr exp_id) ids) expected_ids"

subsection \<open>Statistics\<close>

text \<open>\<^verbatim>\<open>d[k] = d.get(k, 0) + 1\<close>\<close>

definition count_key :: "counts \<Rightarrow> jvalue \<Rightarrow> counts" where
  "count_key d k = dict_set d k (dict_get d k 0 + 1)"

fun gather_statistics :: "invoice list \<Rightarrow> counts \<times> counts \<Rightarrow> counts \<times> counts" where
  "gather_statistics [] (currencies, vendors) = (currencies, vendors)"
| "gather_statistics (r # rs) (currencies, vendors) =
     gather_statistics rs
       (count_key currencies (get r ''currency'' (JStr ''Unknown'')),
        count_key vendors (get r ''vendor'' (JStr ''Unknown'')))"

subsection \<open>The function\<close>

text \<open>
  The state at the \<^verbatim>\<open>return\<close> statement: the lists of the first loop, the sequence
  gaps and the two dictionaries.
\<close>

record results = checks +
  sequence_gaps :: "string list"
  currencies :: counts
  vendors :: counts

text \<open>The dictionary the function returns: the lengths of the lists, not the lists.\<close>

record report =
  total_records :: nat
  missing_fields_len :: nat
  duplicate_ids_len :: nat
  math_errors_len :: nat
  sequence_gaps_len :: nat
  currencies_stat :: counts
  vendors_stat :: counts
  passed :: bool

text \<open>
  The body of the function up to the \<^verbatim>\<open>return\<close> statement. Of the \<^verbatim>\<open>print\<close> calls
  only those of the two dictionaries convert values of the records to strings.
\<close>

definition run_checks :: "invoice list \<Rightarrow> error + results" where
  "run_checks data =
     (case validate_records 0 data init_checks of
        Inl e \<Rightarrow> Inl e
      | Inr st \<Rightarrow>
          (case actual_ids data of
             Inl e \<Rightarrow> Inl e
           | Inr ids \<Rightarrow>
               (let (cs, vs) = gather_statistics data ([], [])
                in if list_all printable (map fst cs) \<and> list_all printable (map fst vs)
                   then Inr (checks.extend st
                          \<lparr>sequence_gaps = check_sequence ids, currencies = cs, vendors = vs\<rparr>)
                   else Inl ValueError)))"

text \<open>
  \<^verbatim>\<open>has_errors = (missing_fields or duplicate_ids or math_errors or sequence_gaps)\<close>:
  the first non-empty list or the last one; its truth value, which \<^verbatim>\<open>not\<close> reads, is
  that one of the lists is not empty.
\<close>

definition has_errors :: "results \<Rightarrow> bool" where
  "has_errors st =
     (missing_fields st \<noteq> [] \<or> duplicate_ids st \<noteq> [] \<or> math_errors st \<noteq> [] \<or>
      sequence_gaps st \<noteq> [])"

definition make_report :: "invoice list \<Rightarrow> results \<Rightarrow> report" where
  "make_report data st =
     \<lparr>total_records = length data,
      missing_fields_len = length (missing_fields st),
      duplicate_ids_len = length (duplicate_ids st),
      math_errors_len = length (math_errors st),
      sequence_gaps_len = length (sequence_gaps st),
      currencies_stat = currencies st,
      vendors_stat = vendors st,
      passed = (\<not> has_errors st)\<rparr>"

definition validate_manifest :: "invoice list \<Rightarrow> error + report" where
  "validate_manifest data =
     (case run_checks data of Inl e \<Rightarrow> Inl e | Inr st \<Rightarrow> Inr (make_report data st))"

subsection \<open>The specification's wording\<close>


text \<open>
  The specification's duplicates of a list of IDs: the occurrences of an ID after its
  first one, in their order.
\<close>

definition repeats :: "'a list \<Rightarrow> 'a list" where
  "repeats xs = map (\<lambda>i. xs ! i) (filter (\<lambda>i. xs ! i \<in> set (take i xs)) [0..<length xs])"

text \<open>
  The duplicate check as a recursion on the list of the IDs, from the IDs seen so far:
  the IDs it reports.
\<close>

fun later_repeats :: "'a list \<Rightarrow> 'a list \<Rightarrow> 'a list" where
  "later_repeats seen [] = []"
| "later_repeats seen (x # xs) =
     (if x \<in> set seen then x # later_repeats seen xs else later_repeats (seen @ [x]) xs)"

text \<open>
  The state at the \<^verbatim>\<open>return\<close> statement, from the state after the loop over the
  records, when every record has an \<^verbatim>\<open>invoice_id\<close>.
\<close>

definition results_of :: "invoice list \<Rightarrow> checks \<Rightarrow> results" where
  "results_of data st =
     checks.extend st
       \<lparr>sequence_gaps = check_sequence (map (\<lambda>r. the (r ''invoice_id'')) data),
        currencies = fst (gather_statistics data ([], [])),
        vendors = snd (gather_statistics data ([], []))\<rparr>"

text \<open>
  Two states of the loop that differ at most in the order in which the members of the set
  \<^verbatim>\<open>invoice_ids\<close> are kept.
\<close>

definition same_members :: "checks \<Rightarrow> checks \<Rightarrow> bool" where
  "same_members st st' =
     (set (invoice_ids st) = set (invoice_ids st') \<and> missing_fields st = missing_fields st' \<and>
      math_errors st = math_errors st' \<and> duplicate_ids st = duplicate_ids st')"

subsection \<open>Records on which no operation raises\<close>

definition amount_fields :: "string list" where
  "amount_fields = [''subtotal'', ''tax'', ''shipping'', ''total'']"

text \<open>
  The four amounts of the record are integers of fewer digits than the limit of the
  string conversion, or absent.
\<close>

definition int_amount :: "jvalue option \<Rightarrow> bool" where
  "int_amount x =
     (case x of
        None \<Rightarrow> True
      | Some (JNum (PInt i)) \<Rightarrow> \<bar>i\<bar> < 10 ^ (int_max_str_digits - 1)
      | Some _ \<Rightarrow> False)"

definition int_amounts :: "invoice \<Rightarrow> bool" where
  "int_amounts r = list_all (\<lambda>field. int_amount (r field)) amount_fields"

text \<open>The integer amount of a field, 0 when the field is absent.\<close>

definition amount :: "invoice \<Rightarrow> string \<Rightarrow> int" where
  "amount r field = (case r field of Some (JNum (PInt i)) \<Rightarrow> i | _ \<Rightarrow> 0)"

text \<open>The four amounts of the record are floats (finite or not), or absent.\<close>

definition float_amount :: "jvalue option \<Rightarrow> bool" where
  "float_amount x =
     (case x of None \<Rightarrow> True | Some (JNum (PFloat f)) \<Rightarrow> True | Some _ \<Rightarrow> False)"

definition float_amounts :: "invoice \<Rightarrow> bool" where
  "float_amounts r = list_all (\<lambda>field. float_amount (r field)) amount_fields"

text \<open>A float, or the integer 0 that stands for an absent amount.\<close>

definition float_or_zero :: "jvalue \<Rightarrow> bool" where
  "float_or_zero v = (v = JNum (PInt 0) \<or> (\<exists>f. v = JNum (PFloat f)))"

text \<open>A field is absent or holds a string.\<close>

definition text_field :: "jvalue option \<Rightarrow> bool" where
  "text_field x = (case x of None \<Rightarrow> True | Some (JStr s) \<Rightarrow> True | Some _ \<Rightarrow> False)"

text \<open>
  A record as the data model of the manifest has it, with any of its fields absent: the
  ID, the currency and the vendor are strings, the amounts are all integers or all floats.
\<close>

definition plain_record :: "invoice \<Rightarrow> bool" where
  "plain_record r =
     ((int_amounts r \<or> float_amounts r) \<and> text_field (r ''invoice_id'') \<and>
      text_field (r ''currency'') \<and> text_field (r ''vendor''))"

subsection \<open>Sample records\<close>

text \<open>A record with all eleven fields and \<open>100 + 20 + 5 = 125\<close>.\<close>

definition full_record :: "string \<Rightarrow> invoice" where
  "full_record iid =
     [''invoice_id'' \<mapsto> JStr iid, ''vendor'' \<mapsto> JStr ''Acme'', ''currency'' \<mapsto> JStr ''USD'',
      ''invoice_date'' \<mapsto> JStr ''2025-01-01'', ''due_date'' \<mapsto> JStr ''2025-01-31'',
      ''terms'' \<mapsto> JStr ''Net 30'', ''subtotal'' \<mapsto> JNum (PInt 100), ''tax'' \<mapsto> JNum (PInt 20),
      ''shipping'' \<mapsto> JNum (PInt 5), ''total'' \<mapsto> JNum (PInt 125), ''file_path'' \<mapsto> JStr ''a.pdf'']"

text \<open>The same record without its \<^verbatim>\<open>vendor\<close>.\<close>

definition no_vendor_record :: "string \<Rightarrow> invoice" where
  "no_vendor_record iid = (full_record iid)(''vendor'' := None)"

text \<open>The same record with a total of 130.\<close>

definition wrong_total_record :: "string \<Rightarrow> invoice" where
  "wrong_total_record iid = (full_record iid)(''total'' \<mapsto> JNum (PInt 130))"

text \<open>The same record without its \<^verbatim>\<open>invoice_id\<close>.\<close>

definition no_id_record :: invoice where
  "no_id_record = (full_record ''INV-2025-0001'')(''invoice_id'' := None)"

text \<open>A record with neither \<^verbatim>\<open>invoice_id\<close> nor \<^verbatim>\<open>vendor\<close>.\<close>

definition no_id_no_vendor_record :: invoice where
  "no_id_no_vendor_record =
     (full_record ''INV-2025-0001'')(''invoice_id'' := None, ''vendor'' := None)"

text \<open>
  A record whose subtotal and total are both the JSON number \<^verbatim>\<open>1e999\<close>, which
  \<^verbatim>\<open>json.load\<close> reads as the infinite \<^verbatim>\<open>float\<close>; tax and shipping are \<open>0.0\<close>.
\<close>

definition inf_record :: invoice where
  "inf_record =
     (full_record ''INV-2025-0001'')
       (''subtotal'' \<mapsto> JNum (PFloat PosInf), ''tax'' \<mapsto> JNum (PFloat (Fin 0)),
        ''shipping'' \<mapsto> JNum (PFloat (Fin 0)), ''total'' \<mapsto> JNum (PFloat PosInf))"

text \<open>A dataset with a missing vendor, a repeated ID and a wrong total.\<close>

definition sample_data :: "invoice list" where
  "sample_data =
     [full_record ''INV-2025-0001'', no_vendor_record ''INV-2025-0002'',
      full_record ''INV-2025-0001'', wrong_total_record ''INV-2025-0003'']"

definition sample_checks :: checks where
  "sample_checks =
     \<lparr>invoice_ids = [JStr ''INV-2025-0001'', JStr ''INV-2025-0002'', JStr ''INV-2025-0003''],
      missing_fields = [(1, ''vendor'')],
      math_errors = [(JStr ''INV-2025-0003'', JNum (PInt 125), JNum (PInt 130),
                      JNum (PInt 100), JNum (PInt 20), JNum (PInt 5))],
      duplicate_ids = [JStr ''INV-2025-0001'']\<rparr>"

definition sample_results :: results where
  "sample_results =
     checks.extend sample_checks
       \<lparr>sequence_gaps =
          check_sequence [JStr ''INV-2025-0001'', JStr ''INV-2025-0002'',
                          JStr ''INV-2025-0001'', JStr ''INV-2025-0003''],
        currencies = [(JStr ''USD'', 4)],
        vendors = [(JStr ''Acme'', 3), (JStr ''Unknown'', 1)]\<rparr>"

text \<open>
  A dataset with a record without \<^verbatim>\<open>invoice_id\<close>, a record without \<^verbatim>\<open>vendor\<close> and a
  record without any field.
\<close>

definition sparse_data :: "invoice list" where
  "sparse_data = [no_id_record, no_vendor_record ''INV-2025-0002'', Map.empty]"

definition sparse_checks :: checks where
  "sparse_checks =
     \<lparr>invoice_ids = [JStr '''', JStr ''INV-2025-0002''],
      missing_fields =
        [(0, ''invoice_id''), (1, ''vendor''),
         (2, ''invoice_id''), (2, ''vendor''), (2, ''currency''), (2, ''invoice_date''),
         (2, ''due_date''), (2, ''terms''), (2, ''subtotal''), (2, ''tax''),
         (2, ''shipping''), (2, ''total''), (2, ''file_path'')],
      math_errors = [],
      duplicate_ids = [JStr '''']\<rparr>"

text \<open>The dataset of the 120 expected invoices.\<close>

definition complete_data :: "invoice list" where
  "complete_data = map full_record expected_ids"

definition complete_checks :: checks where
  "complete_checks = init_checks\<lparr>invoice_ids := map JStr expected_ids\<rparr>"

section \<open>Properties of the model\<close>

subsection \<open>String conversion and the arithmetic of the amounts\<close>

lemma printable_simps [simp]:
  "printable (JStr s)"
  "printable (JNum (PFloat f))"
  "printable (JNum (PInt i)) \<longleftrightarrow> \<bar>i\<bar> < 10 ^ int_max_str_digits"
  by (simp_all add: printable_def)

lemma digits_step: "(10::int) ^ int_max_str_digits = 10 * 10 ^ (int_max_str_digits - 1)"
proof -
  have "int_max_str_digits = Suc (int_max_str_digits - 1)"
    by (simp add: int_max_str_digits_def)
  then show ?thesis
    by (metis power_Suc)
qed

lemma small_int_bound:
  assumes "\<bar>i\<bar> < 1000"
  shows "\<bar>i\<bar> < (10::int) ^ (int_max_str_digits - 1)"
proof -
  have "(3::nat) \<le> int_max_str_digits - 1"
    by (simp add: int_max_str_digits_def)
  then have "(10::int) ^ 3 \<le> 10 ^ (int_max_str_digits - 1)"
    by (intro power_increasing) simp_all
  with assms show ?thesis
    by simp
qed

lemma tolerance_value: "tolerance = PFloat (Fin (5764607523034235 / 576460752303423488))"
  unfolding tolerance_def by code_simp

lemma exceeds_tolerance_int:
  "exceeds_tolerance (JNum (PInt a)) (JNum (PInt b)) = Inr (a \<noteq> b)"
proof -
  have "(5764607523034235 / 576460752303423488 < (of_int \<bar>a - b\<bar> :: rat)) = (a \<noteq> b)"
  proof (cases "a = b")
    case True
    then show ?thesis by simp
  next
    case False
    then have "1 \<le> \<bar>a - b\<bar>" by simp
    then have "(1 :: rat) \<le> of_int \<bar>a - b\<bar>" by (metis of_int_1 of_int_le_iff)
    with False show ?thesis by simp
  qed
  then show ?thesis
    by (simp add: exceeds_tolerance_def tolerance_value num_gt_def)
qed

lemma int_amount_get:
  assumes "int_amount (r field)"
  shows "get r field (JNum (PInt 0)) = JNum (PInt (amount r field))"
    and "\<bar>amount r field\<bar> < 10 ^ (int_max_str_digits - 1)"
  using assms
  by (auto simp: int_amount_def get_def amount_def
      split: option.splits jvalue.splits pynum.splits)

lemma int_amounts_fields:
  assumes "int_amounts r"
  shows "int_amount (r ''subtotal'')" "int_amount (r ''tax'')"
    "int_amount (r ''shipping'')" "int_amount (r ''total'')"
  using assms by (simp_all add: int_amounts_def amount_fields_def)

lemma calculated_total_int:
  assumes "int_amounts r"
  shows "calculated_total r =
           Inr (JNum (PInt (amount r ''subtotal'' + amount r ''tax'' + amount r ''shipping'')))"
  using int_amounts_fields [OF assms]
  by (simp add: calculated_total_def int_amount_get)

lemma recorded_total_int:
  assumes "int_amounts r"
  shows "recorded_total r = Inr (JNum (PInt (amount r ''total'')))"
  using int_amounts_fields [OF assms]
  by (simp add: recorded_total_def int_amount_get)

lemma check_math_int:
  assumes "int_amounts r" and "printable inv_id"
  shows "check_math r inv_id =
           Inr (if amount r ''subtotal'' + amount r ''tax'' + amount r ''shipping'' \<noteq> amount r ''total''
                then [(inv_id,
                       JNum (PInt (amount r ''subtotal'' + amount r ''tax'' + amount r ''shipping'')),
                       JNum (PInt (amount r ''total'')),
                       JNum (PInt (amount r ''subtotal'')), JNum (PInt (amount r ''tax'')),
                       JNum (PInt (amount r ''shipping'')))]
                else [])"
proof -
  note f = int_amounts_fields [OF assms(1)]
  let ?B = "(10::int) ^ (int_max_str_digits - 1)"
  note b = int_amount_get(2) [of r "''subtotal''", OF f(1)]
    int_amount_get(2) [of r "''tax''", OF f(2)]
    int_amount_get(2) [of r "''shipping''", OF f(3)]
    int_amount_get(2) [of r "''total''", OF f(4)]
  have pos: "0 < ?B" by simp
  have p: "\<bar>amount r ''subtotal''\<bar> < 10 * ?B" "\<bar>amount r ''tax''\<bar> < 10 * ?B"
    "\<bar>amount r ''shipping''\<bar> < 10 * ?B" "\<bar>amount r ''total''\<bar> < 10 * ?B"
    "\<bar>amount r ''subtotal'' + amount r ''tax'' + amount r ''shipping''\<bar> < 10 * ?B"
    using b pos by linarith+
  show ?thesis
    using p assms(2) f
    by (simp add: check_math_def Let_def calculated_total_int [OF assms(1)]
        recorded_total_int [OF assms(1)] exceeds_tolerance_int int_amount_get digits_step)
qed
lemma int_to_float_0: "int_to_float 0 = Inr (Fin 0)"
  by (simp add: int_to_float_def to_double_def)

lemma float_amount_get:
  assumes "float_amount (r field)"
  shows "float_or_zero (get r field (JNum (PInt 0)))"
  using assms
  by (auto simp: float_amount_def float_or_zero_def get_def
      split: option.splits jvalue.splits pynum.splits)

lemma float_amounts_fields:
  assumes "float_amounts r"
  shows "float_amount (r ''subtotal'')" "float_amount (r ''tax'')"
    "float_amount (r ''shipping'')" "float_amount (r ''total'')"
  using assms by (simp_all add: float_amounts_def amount_fields_def)

lemma py_add_float:
  assumes "float_or_zero a" and "float_or_zero b"
  shows "\<exists>c. py_add a b = Inr c \<and> float_or_zero c"
  using assms by (auto simp: float_or_zero_def int_to_float_0)

lemma py_sub_float:
  assumes "float_or_zero a" and "float_or_zero b"
  shows "\<exists>c. py_sub a b = Inr c \<and> float_or_zero c"
  using assms by (auto simp: float_or_zero_def int_to_float_0)

lemma num_round2_float: "\<exists>g. num_round2 (PFloat f) = PFloat g"
  by (cases f) auto

lemma py_round2_float:
  assumes "float_or_zero a"
  shows "\<exists>c. py_round2 a = Inr c \<and> float_or_zero c"
  using assms num_round2_float by (auto simp: float_or_zero_def)

lemma py_abs_float:
  assumes "float_or_zero a"
  shows "\<exists>c. py_abs a = Inr c \<and> float_or_zero c"
  using assms by (auto simp: float_or_zero_def)

lemma py_gt_tolerance_float:
  assumes "float_or_zero a"
  shows "\<exists>b. py_gt_tolerance a = Inr b"
  using assms by (auto simp: float_or_zero_def)

lemma float_or_zero_printable: "float_or_zero v \<Longrightarrow> printable v"
  by (auto simp: float_or_zero_def)

lemma check_math_float:
  assumes "float_amounts r" and "printable inv_id"
  shows "\<exists>ms. check_math r inv_id = Inr ms"
proof -
  note f = float_amounts_fields [OF assms(1)]
  note g = float_amount_get [of r "''subtotal''", OF f(1)]
    float_amount_get [of r "''tax''", OF f(2)]
    float_amount_get [of r "''shipping''", OF f(3)]
    float_amount_get [of r "''total''", OF f(4)]
  from py_add_float [OF g(1) g(2)] obtain s
    where s: "py_add (get r ''subtotal'' (JNum (PInt 0))) (get r ''tax'' (JNum (PInt 0))) = Inr s"
      "float_or_zero s" by blast
  from py_add_float [OF s(2) g(3)] obtain u
    where u: "py_add s (get r ''shipping'' (JNum (PInt 0))) = Inr u" "float_or_zero u" by blast
  from py_round2_float [OF u(2)] obtain c
    where c: "py_round2 u = Inr c" "float_or_zero c" by blast
  from py_round2_float [OF g(4)] obtain t
    where t: "py_round2 (get r ''total'' (JNum (PInt 0))) = Inr t" "float_or_zero t" by blast
  from py_sub_float [OF c(2) t(2)] obtain d
    where d: "py_sub c t = Inr d" "float_or_zero d" by blast
  from py_abs_float [OF d(2)] obtain a
    where a: "py_abs d = Inr a" "float_or_zero a" by blast
  from py_gt_tolerance_float [OF a(2)] obtain b
    where b: "py_gt_tolerance a = Inr b" by blast
  have ct: "calculated_total r = Inr c"
    by (simp add: calculated_total_def s u c)
  have rt: "recorded_total r = Inr t"
    by (simp add: recorded_total_def t)
  have ex: "exceeds_tolerance c t = Inr b"
    by (simp add: exceeds_tolerance_def d a b)
  have pr: "list_all printable
      [inv_id, c, t, get r ''subtotal'' (JNum (PInt 0)), get r ''tax'' (JNum (PInt 0)),
       get r ''shipping'' (JNum (PInt 0))]"
    using assms(2) c(2) t(2) g(1,2,3) by (simp add: float_or_zero_printable)
  show ?thesis
    using pr by (simp add: check_math_def Let_def ct rt ex)
qed

lemma text_field_get:
  assumes "text_field (r field)"
  shows "\<exists>s. get r field (JStr d) = JStr s"
  using assms
  by (auto simp: text_field_def get_def split: option.splits jvalue.splits)

lemma plain_record_inv_id:
  assumes "plain_record r"
  shows "\<exists>s. get r ''invoice_id'' (JStr '''') = JStr s"
    and "printable (get r ''invoice_id'' (JStr ''''))"
proof -
  from assms have t: "text_field (r ''invoice_id'')"
    by (simp add: plain_record_def)
  show "\<exists>s. get r ''invoice_id'' (JStr '''') = JStr s"
    by (rule text_field_get [of r "''invoice_id''" "''''", OF t])
  then show "printable (get r ''invoice_id'' (JStr ''''))"
    by (metis printable_simps(1))
qed

lemma check_math_plain:
  assumes "plain_record r"
  shows "\<exists>ms. check_math r (get r ''invoice_id'' (JStr '''')) = Inr ms"
proof -
  note p = plain_record_inv_id(2) [OF assms]
  from assms have "int_amounts r \<or> float_amounts r"
    by (simp add: plain_record_def)
  then show ?thesis
    using check_math_int [OF _ p] check_math_float [OF _ p] by metis
qed

subsection \<open>The loop over the records\<close>

lemma validate_record_eq:
  assumes "check_math r (get r ''invoice_id'' (JStr '''')) = Inr ms"
    and "printable (get r ''invoice_id'' (JStr ''''))"
  shows "validate_record i r st =
     Inr (if py_in (get r ''invoice_id'' (JStr '''')) (invoice_ids st)
          then st\<lparr>missing_fields := missing_fields st @ check_fields i r,
                  duplicate_ids := duplicate_ids st @ [get r ''invoice_id'' (JStr '''')],
                  math_errors := math_errors st @ ms\<rparr>
          else st\<lparr>missing_fields := missing_fields st @ check_fields i r,
                  invoice_ids := invoice_ids st @ [get r ''invoice_id'' (JStr '''')],
                  math_errors := math_errors st @ ms\<rparr>)"
  using assms
  by (simp add: validate_record_def check_duplicate_def Let_def)

lemma validate_record_Inr:
  assumes "validate_record i r st = Inr st'"
  shows "missing_fields st' = missing_fields st @ check_fields i r"
    and "duplicate_ids st' = duplicate_ids st @
           (if py_in (get r ''invoice_id'' (JStr '''')) (invoice_ids st)
            then [get r ''invoice_id'' (JStr '''')] else [])"
    and "invoice_ids st' = invoice_ids st @
           (if py_in (get r ''invoice_id'' (JStr '''')) (invoice_ids st)
            then [] else [get r ''invoice_id'' (JStr '''')])"
    and "\<exists>ms. check_math r (get r ''invoice_id'' (JStr '''')) = Inr ms \<and>
           math_errors st' = math_errors st @ ms"
  using assms
  by (auto simp: validate_record_def check_duplicate_def Let_def split: sum.splits if_splits)

lemma validate_record_total:
  assumes "plain_record r"
  shows "\<exists>st'. validate_record i r st = Inr st'"
proof -
  note p = plain_record_inv_id(2) [OF assms]
  from check_math_plain [OF assms] obtain ms
    where "check_math r (get r ''invoice_id'' (JStr '''')) = Inr ms" by blast
  from validate_record_eq [OF this p] show ?thesis
    by blast
qed

lemma validate_records_total:
  assumes "list_all plain_record data"
  shows "\<exists>st'. validate_records i data st = Inr st'"
  using assms
proof (induction data arbitrary: i st)
  case Nil
  then show ?case by simp
next
  case (Cons r rs)
  then have "plain_record r" and rs: "list_all plain_record rs"
    by simp_all
  from validate_record_total [OF this(1)] obtain st1
    where "validate_record i r st = Inr st1" by blast
  with Cons.IH [OF rs, of "Suc i" st1] show ?case
    by simp
qed
lemma validate_records_missing:
  "validate_records i data st = Inr st' \<Longrightarrow>
   missing_fields st' =
     missing_fields st @ concat (map (\<lambda>(j, r). check_fields j r) (List.enumerate i data))"
proof (induction data arbitrary: i st)
  case Nil
  then show ?case by simp
next
  case (Cons r rs)
  then obtain st1 where s1: "validate_record i r st = Inr st1"
    and s2: "validate_records (Suc i) rs st1 = Inr st'"
    by (auto split: sum.splits)
  show ?case
    using Cons.IH [OF s2] validate_record_Inr(1) [OF s1] by simp
qed

lemma check_fields_Nil: "check_fields i r = [] \<longleftrightarrow> (\<forall>f \<in> set required_fields. r f \<noteq> None)"
  by (auto simp: check_fields_def filter_empty_conv)

lemma concat_check_fields_Nil:
  "concat (map (\<lambda>(j, r). check_fields j r) (List.enumerate i data)) = [] \<longleftrightarrow>
   (\<forall>r \<in> set data. \<forall>f \<in> set required_fields. r f \<noteq> None)"
proof (induction data arbitrary: i)
  case Nil
  then show ?case by simp
next
  case (Cons r rs)
  then show ?case by (simp add: check_fields_Nil)
qed

lemma distinct_required_fields: "distinct required_fields"
  by (simp add: required_fields_def)

lemma distinct_check_fields: "distinct (check_fields i r)"
  by (simp add: check_fields_def distinct_map distinct_required_fields inj_on_def)

lemma in_check_fields:
  "(j, f) \<in> set (check_fields i r) \<longleftrightarrow> j = i \<and> f \<in> set required_fields \<and> r f = None"
  by (auto simp: check_fields_def)

lemma in_concat_check_fields:
  "(j, f) \<in> set (concat (map (\<lambda>(j, r). check_fields j r) (List.enumerate i data))) \<longleftrightarrow>
   i \<le> j \<and> j < i + length data \<and> f \<in> set required_fields \<and> (data ! (j - i)) f = None"
proof (induction data arbitrary: i)
  case Nil
  then show ?case by simp
next
  case (Cons r rs)
  have step: "(j, f) \<in> set (concat (map (\<lambda>(j, r). check_fields j r) (List.enumerate i (r # rs)))) \<longleftrightarrow>
      (j, f) \<in> set (check_fields i r) \<or>
      (j, f) \<in> set (concat (map (\<lambda>(j, r). check_fields j r) (List.enumerate (Suc i) rs)))"
    by simp
  show ?case
  proof (cases "j = i")
    case True
    then show ?thesis
      unfolding step Cons.IH in_check_fields by auto
  next
    case False
    then have "i \<le> j \<Longrightarrow> (r # rs) ! (j - i) = rs ! (j - Suc i)"
      by (simp add: nth_Cons')
    with False show ?thesis
      unfolding step Cons.IH in_check_fields by auto
  qed
qed

lemma distinct_concat_check_fields:
  "distinct (concat (map (\<lambda>(j, r). check_fields j r) (List.enumerate i data)))"
proof (induction data arbitrary: i)
  case Nil
  then show ?case by simp
next
  case (Cons r rs)
  have "\<And>x. x \<in> set (check_fields i r) \<Longrightarrow>
        x \<notin> set (concat (map (\<lambda>(j, r). check_fields j r) (List.enumerate (Suc i) rs)))"
  proof -
    fix x assume x: "x \<in> set (check_fields i r)"
    obtain j f where jf: "x = (j, f)" by (cases x)
    with x have "j = i" by (simp add: in_check_fields)
    then show "x \<notin> set (concat (map (\<lambda>(j, r). check_fields j r) (List.enumerate (Suc i) rs)))"
      unfolding jf in_concat_check_fields by simp
  qed
  then have "set (check_fields i r) \<inter>
        set (concat (map (\<lambda>(j, r). check_fields j r) (List.enumerate (Suc i) rs))) = {}"
    by blast
  then show ?case
    using Cons.IH [of "Suc i"] by (simp add: distinct_check_fields)
qed

subsection \<open>The list of the actual IDs\<close>

lemma actual_ids_Inr:
  assumes "\<forall>r \<in> set data. r ''invoice_id'' \<noteq> None"
  shows "actual_ids data = Inr (map (\<lambda>r. the (r ''invoice_id'')) data)"
  using assms by (induction data) (auto simp: subscript_def)

lemma actual_ids_KeyError:
  assumes "\<exists>r \<in> set data. r ''invoice_id'' = None"
  shows "actual_ids data = Inl KeyError"
  using assms
proof (induction data)
  case Nil
  then show ?case by simp
next
  case (Cons r rs)
  show ?case
  proof (cases "r ''invoice_id''")
    case None
    then show ?thesis by (simp add: subscript_def)
  next
    case (Some v)
    with Cons.prems have "\<exists>r \<in> set rs. r ''invoice_id'' = None" by auto
    with Cons.IH Some show ?thesis by (simp add: subscript_def)
  qed
qed

lemma actual_ids_cases:
  "actual_ids data = Inl KeyError \<or>
   actual_ids data = Inr (map (\<lambda>r. the (r ''invoice_id'')) data)"
  by (cases "\<forall>r \<in> set data. r ''invoice_id'' \<noteq> None")
    (simp_all add: actual_ids_Inr actual_ids_KeyError)

lemma py_eq_JStr [simp]:
  "py_eq (JStr s) v \<longleftrightarrow> v = JStr s"
  "py_eq v (JStr s) \<longleftrightarrow> v = JStr s"
  by (cases v; auto)+

lemma py_in_JStr: "py_in (JStr s) vs \<longleftrightarrow> JStr s \<in> set vs"
  by (induction vs) (auto simp: py_in_def)

lemma check_sequence_filter:
  "check_sequence ids = filter (\<lambda>exp_id. JStr exp_id \<notin> set ids) expected_ids"
  by (simp add: check_sequence_def py_in_JStr)

subsection \<open>The frequency maps\<close>

lemma sum_count_key: "sum_list (map snd (count_key d k)) = Suc (sum_list (map snd d))"
proof -
  have "sum_list (map snd (dict_set d k (dict_get d k n + 1))) =
        (if list_ex (py_eq k) d' then 0 else n) + Suc (sum_list (map snd d))"
    if "d' = map fst d" for n d'
    using that
  proof (induction d arbitrary: d')
    case Nil
    then show ?case by simp
  next
    case (Cons e d)
    obtain k' v' where e: "e = (k', v')" by (cases e)
    show ?case
      using Cons.IH [OF refl] Cons.prems by (simp add: e)
  qed
  from this [of "map fst d" 0] show ?thesis
    by (simp add: count_key_def)
qed

lemma keys_count_key: "set (map fst (count_key d k)) \<subseteq> insert k (set (map fst d))"
proof -
  have "fst ` set (dict_set d k v) \<subseteq> insert k (fst ` set d)" for v
  proof (induction d)
    case Nil
    then show ?case by simp
  next
    case (Cons e d)
    obtain k' v' where e: "e = (k', v')" by (cases e)
    show ?case
    proof (cases "py_eq k k'")
      case True
      then show ?thesis by (auto simp: e)
    next
      case False
      with Cons.IH show ?thesis by (auto simp: e)
    qed
  qed
  then show ?thesis
    by (simp add: count_key_def)
qed

lemma dict_get_count_key:
  "dict_get (count_key d k) (JStr s) 0 = dict_get d (JStr s) 0 + (if k = JStr s then 1 else 0)"
proof -
  have "dict_get (dict_set d k (dict_get d k n + 1)) (JStr s) n =
        dict_get d (JStr s) n + (if k = JStr s then 1 else 0)" for n
  proof (induction d)
    case Nil
    then show ?case by simp
  next
    case (Cons e d)
    obtain k' v' where e: "e = (k', v')" by (cases e)
    show ?case
      using Cons.IH by (auto simp: e)
  qed
  then show ?thesis
    by (simp add: count_key_def)
qed

lemma gather_statistics_sum:
  "sum_list (map snd (fst (gather_statistics data (cs, vs)))) =
     sum_list (map snd cs) + length data \<and>
   sum_list (map snd (snd (gather_statistics data (cs, vs)))) =
     sum_list (map snd vs) + length data"
  by (induction data arbitrary: cs vs) (simp_all add: sum_count_key)

lemma gather_statistics_keys:
  "set (map fst (fst (gather_statistics data (cs, vs)))) \<subseteq>
     set (map fst cs) \<union> (\<lambda>r. get r ''currency'' (JStr ''Unknown'')) ` set data \<and>
   set (map fst (snd (gather_statistics data (cs, vs)))) \<subseteq>
     set (map fst vs) \<union> (\<lambda>r. get r ''vendor'' (JStr ''Unknown'')) ` set data"
proof (induction data arbitrary: cs vs)
  case Nil
  then show ?case by simp
next
  case (Cons r rs)
  let ?c = "get r ''currency'' (JStr ''Unknown'')"
  let ?v = "get r ''vendor'' (JStr ''Unknown'')"
  let ?C = "\<lambda>r. get r ''currency'' (JStr ''Unknown'')"
  let ?V = "\<lambda>r. get r ''vendor'' (JStr ''Unknown'')"
  note ih = Cons.IH [of "count_key cs ?c" "count_key vs ?v"]
  have s: "gather_statistics (r # rs) (cs, vs) =
        gather_statistics rs (count_key cs ?c, count_key vs ?v)"
    by simp
  have c: "set (map fst (count_key cs ?c)) \<union> ?C ` set rs \<subseteq>
        set (map fst cs) \<union> ?C ` set (r # rs)"
    using keys_count_key [of cs ?c] by auto
  have v: "set (map fst (count_key vs ?v)) \<union> ?V ` set rs \<subseteq>
        set (map fst vs) \<union> ?V ` set (r # rs)"
    using keys_count_key [of vs ?v] by auto
  show ?case
    unfolding s using ih c v by blast
qed

lemma gather_statistics_count:
  "dict_get (fst (gather_statistics data (cs, vs))) (JStr s) 0 =
     dict_get cs (JStr s) 0 +
     length (filter (\<lambda>r. get r ''currency'' (JStr ''Unknown'') = JStr s) data) \<and>
   dict_get (snd (gather_statistics data (cs, vs))) (JStr s) 0 =
     dict_get vs (JStr s) 0 +
     length (filter (\<lambda>r. get r ''vendor'' (JStr ''Unknown'') = JStr s) data)"
  by (induction data arbitrary: cs vs) (simp_all add: dict_get_count_key)

lemma gather_statistics_printable:
  assumes "list_all plain_record data"
  shows "list_all printable (map fst (fst (gather_statistics data ([], [])))) \<and>
         list_all printable (map fst (snd (gather_statistics data ([], []))))"
proof -
  have c: "printable (get r ''currency'' (JStr ''Unknown''))"
    and v: "printable (get r ''vendor'' (JStr ''Unknown''))" if "r \<in> set data" for r
  proof -
    from that assms have p: "plain_record r"
      by (simp add: list_all_iff)
    then have "text_field (r ''currency'')" "text_field (r ''vendor'')"
      by (simp_all add: plain_record_def)
    then show "printable (get r ''currency'' (JStr ''Unknown''))"
      and "printable (get r ''vendor'' (JStr ''Unknown''))"
      by (auto simp: text_field_def get_def split: option.splits jvalue.splits)
  qed
  from gather_statistics_keys [of data "[]" "[]"] c v show ?thesis
    unfolding list_all_iff by auto
qed
subsection \<open>The function as a whole\<close>

lemma extend_fields:
  "missing_fields (checks.extend st x) = missing_fields st"
  "duplicate_ids (checks.extend st x) = duplicate_ids st"
  "math_errors (checks.extend st x) = math_errors st"
  "invoice_ids (checks.extend st x) = invoice_ids st"
  "sequence_gaps (checks.extend st \<lparr>sequence_gaps = g, currencies = c, vendors = v\<rparr>) = g"
  "currencies (checks.extend st \<lparr>sequence_gaps = g, currencies = c, vendors = v\<rparr>) = c"
  "vendors (checks.extend st \<lparr>sequence_gaps = g, currencies = c, vendors = v\<rparr>) = v"
  by (simp_all add: checks.defs)

lemma results_of_fields:
  "missing_fields (results_of data st) = missing_fields st"
  "duplicate_ids (results_of data st) = duplicate_ids st"
  "math_errors (results_of data st) = math_errors st"
  "invoice_ids (results_of data st) = invoice_ids st"
  "sequence_gaps (results_of data st) = check_sequence (map (\<lambda>r. the (r ''invoice_id'')) data)"
  "currencies (results_of data st) = fst (gather_statistics data ([], []))"
  "vendors (results_of data st) = snd (gather_statistics data ([], []))"
  by (simp_all add: results_of_def extend_fields)

lemma run_checks_Inr:
  assumes "run_checks data = Inr res"
  shows "\<exists>st. validate_records 0 data init_checks = Inr st \<and>
           (\<forall>r \<in> set data. r ''invoice_id'' \<noteq> None) \<and> res = results_of data st"
proof -
  from assms obtain st where st: "validate_records 0 data init_checks = Inr st"
    by (auto simp: run_checks_def split: sum.splits)
  from assms st obtain ids where ids: "actual_ids data = Inr ids"
    by (auto simp: run_checks_def split: sum.splits)
  have all: "\<forall>r \<in> set data. r ''invoice_id'' \<noteq> None"
  proof (rule ccontr)
    assume "\<not> (\<forall>r \<in> set data. r ''invoice_id'' \<noteq> None)"
    then have "\<exists>r \<in> set data. r ''invoice_id'' = None" by simp
    from actual_ids_KeyError [OF this] ids show False by simp
  qed
  from actual_ids_Inr [OF all] ids have "ids = map (\<lambda>r. the (r ''invoice_id'')) data"
    by simp
  with assms st ids have "res = results_of data st"
    by (auto simp: run_checks_def results_of_def split: prod.splits if_splits)
  with st all show ?thesis
    by blast
qed

lemma run_checks_plain:
  assumes "list_all plain_record data" and "\<forall>r \<in> set data. r ''invoice_id'' \<noteq> None"
  shows "\<exists>st. validate_records 0 data init_checks = Inr st \<and>
           run_checks data = Inr (results_of data st)"
proof -
  from validate_records_total [OF assms(1)] obtain st
    where st: "validate_records 0 data init_checks = Inr st" by blast
  note ids = actual_ids_Inr [OF assms(2)]
  obtain cs vs where g: "gather_statistics data ([], []) = (cs, vs)"
    by (cases "gather_statistics data ([], [])")
  from gather_statistics_printable [OF assms(1)] g
  have pr: "list_all printable (map fst cs)" "list_all printable (map fst vs)"
    by simp_all
  have "run_checks data = Inr (results_of data st)"
    by (simp add: run_checks_def st ids results_of_def g pr)
  with st show ?thesis
    by blast
qed

lemma run_checks_no_id:
  assumes "list_all plain_record data" and "\<exists>r \<in> set data. r ''invoice_id'' = None"
  shows "run_checks data = Inl KeyError" and "validate_manifest data = Inl KeyError"
proof -
  from validate_records_total [OF assms(1)] obtain st
    where st: "validate_records 0 data init_checks = Inr st" by blast
  note ids = actual_ids_KeyError [OF assms(2)]
  show r: "run_checks data = Inl KeyError"
    by (simp add: run_checks_def st ids)
  show "validate_manifest data = Inl KeyError"
    by (simp add: validate_manifest_def r)
qed

lemma validate_manifest_Inr:
  assumes "validate_manifest data = Inr rep"
  shows "\<exists>res. run_checks data = Inr res \<and> rep = make_report data res"
  using assms
  by (auto simp: validate_manifest_def split: sum.splits)

subsection \<open>The duplicate check\<close>

lemma validate_records_ids:
  assumes "validate_records i data st = Inr st'"
    and "\<forall>r \<in> set data. \<exists>s. get r ''invoice_id'' (JStr '''') = JStr s"
  shows "duplicate_ids st' =
           duplicate_ids st @
           later_repeats (invoice_ids st) (map (\<lambda>r. get r ''invoice_id'' (JStr '''')) data)"
  using assms
proof (induction data arbitrary: i st)
  case Nil
  then show ?case by simp
next
  case (Cons r rs)
  from Cons.prems(1) obtain st1 where s1: "validate_record i r st = Inr st1"
    and s2: "validate_records (Suc i) rs st1 = Inr st'"
    by (auto split: sum.splits)
  from Cons.prems(2) obtain s where s: "get r ''invoice_id'' (JStr '''') = JStr s"
    by auto
  from Cons.prems(2) have rs: "\<forall>r \<in> set rs. \<exists>s. get r ''invoice_id'' (JStr '''') = JStr s"
    by simp
  note ih = Cons.IH [OF s2 rs]
  note d = validate_record_Inr(2) [OF s1] and n = validate_record_Inr(3) [OF s1]
  show ?case
    using ih d n by (simp add: s py_in_JStr)
qed

lemma later_repeats_snoc:
  "later_repeats seen (xs @ [x]) =
     later_repeats seen xs @ (if x \<in> set seen \<union> set xs then [x] else [])"
  by (induction xs arbitrary: seen) auto

lemma repeats_snoc: "repeats (xs @ [x]) = repeats xs @ (if x \<in> set xs then [x] else [])"
proof -
  let ?n = "length xs"
  let ?P = "\<lambda>i. (xs @ [x]) ! i \<in> set (take i (xs @ [x]))"
  have f: "filter ?P [0..<?n] = filter (\<lambda>i. xs ! i \<in> set (take i xs)) [0..<?n]"
    by (rule filter_cong) (auto simp: nth_append)
  have m: "map (\<lambda>i. (xs @ [x]) ! i) (filter (\<lambda>i. xs ! i \<in> set (take i xs)) [0..<?n]) =
           map (\<lambda>i. xs ! i) (filter (\<lambda>i. xs ! i \<in> set (take i xs)) [0..<?n])"
    by (rule map_cong) (auto simp: nth_append)
  have "repeats (xs @ [x]) = map (\<lambda>i. (xs @ [x]) ! i) (filter ?P ([0..<?n] @ [?n]))"
    by (simp add: repeats_def)
  also have "\<dots> = map (\<lambda>i. (xs @ [x]) ! i) (filter ?P [0..<?n]) @
                    (if x \<in> set xs then [x] else [])"
    by simp
  finally show ?thesis
    unfolding f m by (simp add: repeats_def)
qed

lemma later_repeats_repeats: "later_repeats [] xs = repeats xs"
proof (induction xs rule: rev_induct)
  case Nil
  then show ?case by (simp add: repeats_def)
next
  case (snoc x xs)
  then show ?case by (simp add: later_repeats_snoc repeats_snoc)
qed

lemma later_repeats_length:
  "length (later_repeats seen xs) = length xs - card (set xs - set seen)"
proof (induction xs arbitrary: seen)
  case Nil
  then show ?case by simp
next
  case (Cons x xs)
  have le: "card (set xs - S) \<le> length xs" for S
    by (meson List.finite_set card_length card_mono Diff_subset le_trans)
  show ?case
  proof (cases "x \<in> set seen")
    case True
    then have "set (x # xs) - set seen = set xs - set seen" by auto
    with True Cons.IH [of seen] le [of "set seen"] show ?thesis
      by simp
  next
    case False
    have "set (x # xs) - set seen = insert x (set xs - set (seen @ [x]))"
      using False by auto
    moreover have "x \<notin> set xs - set (seen @ [x])" by simp
    ultimately have "card (set (x # xs) - set seen) = Suc (card (set xs - set (seen @ [x])))"
      by simp
    with False Cons.IH [of "seen @ [x]"] le [of "set (seen @ [x])"] show ?thesis
      by simp
  qed
qed
subsection \<open>The expected IDs\<close>

lemma length_expected_ids: "length expected_ids = 120"
  by (simp add: expected_ids_def)

lemma strict_sorted_expected_ids: "sorted_wrt (<) expected_ids"
  by code_simp

lemma sorted_expected_ids: "sorted expected_ids" and distinct_expected_ids: "distinct expected_ids"
  using strict_sorted_expected_ids by (simp_all add: strict_sorted_iff)

lemma check_sequence_Nil: "check_sequence [] = expected_ids"
  by (simp add: check_sequence_filter)




lemma hd_expected_ids: "hd expected_ids = ''INV-2025-0001''"
proof -
  have "hd expected_ids = ''INV-2025-'' @ zfill 4 (str_nat 1)"
    by (simp add: expected_ids_def hd_map)
  also have "str_nat 1 = ''1''"
    by (simp add: str_nat.simps digit_def)
  finally show ?thesis
    by (simp add: zfill_def numeral_eq_Suc)
qed

lemma last_expected_ids: "last expected_ids = ''INV-2025-0120''"
proof -
  have "[1..<121] = [1..<120] @ [120::nat]"
    using upt_Suc_append [of 1 120] by simp
  then have "last expected_ids = ''INV-2025-'' @ zfill 4 (str_nat 120)"
    by (simp add: expected_ids_def)
  also have "str_nat 120 = ''120''"
    by (simp add: str_nat.simps digit_def)
  finally show ?thesis
    by (simp add: zfill_def)
qed

subsection \<open>Evaluation of the sample records\<close>

lemma full_record_fields:
  "full_record iid ''invoice_id'' = Some (JStr iid)"
  "full_record iid ''vendor'' = Some (JStr ''Acme'')"
  "full_record iid ''currency'' = Some (JStr ''USD'')"
  "full_record iid ''subtotal'' = Some (JNum (PInt 100))"
  "full_record iid ''tax'' = Some (JNum (PInt 20))"
  "full_record iid ''shipping'' = Some (JNum (PInt 5))"
  "full_record iid ''total'' = Some (JNum (PInt 125))"
  by (simp_all add: full_record_def)

lemma no_vendor_record_fields:
  "no_vendor_record iid ''invoice_id'' = Some (JStr iid)"
  "no_vendor_record iid ''vendor'' = None"
  "no_vendor_record iid ''currency'' = Some (JStr ''USD'')"
  "no_vendor_record iid ''subtotal'' = Some (JNum (PInt 100))"
  "no_vendor_record iid ''tax'' = Some (JNum (PInt 20))"
  "no_vendor_record iid ''shipping'' = Some (JNum (PInt 5))"
  "no_vendor_record iid ''total'' = Some (JNum (PInt 125))"
  by (simp_all add: full_record_def no_vendor_record_def)

lemma wrong_total_record_fields:
  "wrong_total_record iid ''invoice_id'' = Some (JStr iid)"
  "wrong_total_record iid ''vendor'' = Some (JStr ''Acme'')"
  "wrong_total_record iid ''currency'' = Some (JStr ''USD'')"
  "wrong_total_record iid ''subtotal'' = Some (JNum (PInt 100))"
  "wrong_total_record iid ''tax'' = Some (JNum (PInt 20))"
  "wrong_total_record iid ''shipping'' = Some (JNum (PInt 5))"
  "wrong_total_record iid ''total'' = Some (JNum (PInt 130))"
  by (simp_all add: full_record_def wrong_total_record_def)

lemma no_id_record_fields:
  "no_id_record ''invoice_id'' = None"
  "no_id_record ''vendor'' = Some (JStr ''Acme'')"
  "no_id_record ''currency'' = Some (JStr ''USD'')"
  "no_id_record ''subtotal'' = Some (JNum (PInt 100))"
  "no_id_record ''tax'' = Some (JNum (PInt 20))"
  "no_id_record ''shipping'' = Some (JNum (PInt 5))"
  "no_id_record ''total'' = Some (JNum (PInt 125))"
  by (simp_all add: full_record_def no_id_record_def)

lemma no_id_no_vendor_record_fields:
  "no_id_no_vendor_record ''invoice_id'' = None"
  "no_id_no_vendor_record ''vendor'' = None"
  "no_id_no_vendor_record ''currency'' = Some (JStr ''USD'')"
  "no_id_no_vendor_record ''subtotal'' = Some (JNum (PInt 100))"
  "no_id_no_vendor_record ''tax'' = Some (JNum (PInt 20))"
  "no_id_no_vendor_record ''shipping'' = Some (JNum (PInt 5))"
  "no_id_no_vendor_record ''total'' = Some (JNum (PInt 125))"
  by (simp_all add: full_record_def no_id_no_vendor_record_def)

lemma inf_record_fields:
  "inf_record ''invoice_id'' = Some (JStr ''INV-2025-0001'')"
  "inf_record ''vendor'' = Some (JStr ''Acme'')"
  "inf_record ''currency'' = Some (JStr ''USD'')"
  "inf_record ''subtotal'' = Some (JNum (PFloat PosInf))"
  "inf_record ''tax'' = Some (JNum (PFloat (Fin 0)))"
  "inf_record ''shipping'' = Some (JNum (PFloat (Fin 0)))"
  "inf_record ''total'' = Some (JNum (PFloat PosInf))"
  by (simp_all add: full_record_def inf_record_def)

lemma small_amount [simp]: "\<bar>i\<bar> < 1000 \<Longrightarrow> int_amount (Some (JNum (PInt i)))"
  using small_int_bound [of i] by (simp add: int_amount_def)

lemma int_amount_None [simp]: "int_amount None"
  by (simp add: int_amount_def)

lemma plain_samples:
  "plain_record (full_record iid)"
  "plain_record (no_vendor_record iid)"
  "plain_record (wrong_total_record iid)"
  "plain_record no_id_record"
  "plain_record no_id_no_vendor_record"
  "plain_record inf_record"
  "plain_record Map.empty"
  by (simp_all add: plain_record_def int_amounts_def float_amounts_def amount_fields_def
      text_field_def float_amount_def full_record_fields no_vendor_record_fields
      wrong_total_record_fields no_id_record_fields no_id_no_vendor_record_fields
      inf_record_fields)

lemma check_fields_samples:
  "check_fields i (full_record iid) = []"
  "check_fields i (no_vendor_record iid) = [(i, ''vendor'')]"
  "check_fields i (wrong_total_record iid) = []"
  "check_fields i no_id_record = [(i, ''invoice_id'')]"
  "check_fields i no_id_no_vendor_record = [(i, ''invoice_id''), (i, ''vendor'')]"
  "check_fields i inf_record = []"
  "check_fields i Map.empty =
     [(i, ''invoice_id''), (i, ''vendor''), (i, ''currency''), (i, ''invoice_date''),
      (i, ''due_date''), (i, ''terms''), (i, ''subtotal''), (i, ''tax''), (i, ''shipping''),
      (i, ''total''), (i, ''file_path'')]"
  by (simp_all add: check_fields_def required_fields_def full_record_def no_vendor_record_def
      wrong_total_record_def no_id_record_def no_id_no_vendor_record_def inf_record_def)
lemma int_amounts_samples:
  "int_amounts (full_record iid)"
  "int_amounts (no_vendor_record iid)"
  "int_amounts (wrong_total_record iid)"
  "int_amounts no_id_record"
  "int_amounts no_id_no_vendor_record"
  "int_amounts Map.empty"
  by (simp_all add: int_amounts_def amount_fields_def full_record_fields
      no_vendor_record_fields wrong_total_record_fields no_id_record_fields
      no_id_no_vendor_record_fields)

lemma check_math_samples:
  assumes "printable v"
  shows "check_math (full_record iid) v = Inr []"
    and "check_math (no_vendor_record iid) v = Inr []"
    and "check_math (wrong_total_record iid) v =
           Inr [(v, JNum (PInt 125), JNum (PInt 130), JNum (PInt 100), JNum (PInt 20),
                 JNum (PInt 5))]"
    and "check_math no_id_record v = Inr []"
    and "check_math no_id_no_vendor_record v = Inr []"
    and "check_math Map.empty v = Inr []"
  by (simp_all add: check_math_int [OF _ assms] int_amounts_samples amount_def
      full_record_fields no_vendor_record_fields wrong_total_record_fields
      no_id_record_fields no_id_no_vendor_record_fields)

lemma get_samples:
  "get (full_record iid) ''invoice_id'' (JStr '''') = JStr iid"
  "get (no_vendor_record iid) ''invoice_id'' (JStr '''') = JStr iid"
  "get (wrong_total_record iid) ''invoice_id'' (JStr '''') = JStr iid"
  "get no_id_record ''invoice_id'' (JStr '''') = JStr ''''"
  "get no_id_no_vendor_record ''invoice_id'' (JStr '''') = JStr ''''"
  "get Map.empty ''invoice_id'' (JStr '''') = JStr ''''"
  "get inf_record ''invoice_id'' (JStr '''') = JStr ''INV-2025-0001''"
  by (simp_all add: get_def full_record_fields no_vendor_record_fields
      wrong_total_record_fields no_id_record_fields no_id_no_vendor_record_fields
      inf_record_fields)

lemma validate_record_samples:
  "validate_record i (full_record iid) st =
     Inr (if JStr iid \<in> set (invoice_ids st)
          then st\<lparr>duplicate_ids := duplicate_ids st @ [JStr iid]\<rparr>
          else st\<lparr>invoice_ids := invoice_ids st @ [JStr iid]\<rparr>)"
  "validate_record i (no_vendor_record iid) st =
     Inr (if JStr iid \<in> set (invoice_ids st)
          then st\<lparr>missing_fields := missing_fields st @ [(i, ''vendor'')],
                  duplicate_ids := duplicate_ids st @ [JStr iid]\<rparr>
          else st\<lparr>missing_fields := missing_fields st @ [(i, ''vendor'')],
                  invoice_ids := invoice_ids st @ [JStr iid]\<rparr>)"
  "validate_record i (wrong_total_record iid) st =
     Inr (if JStr iid \<in> set (invoice_ids st)
          then st\<lparr>duplicate_ids := duplicate_ids st @ [JStr iid],
                  math_errors := math_errors st @
                    [(JStr iid, JNum (PInt 125), JNum (PInt 130),
                      JNum (PInt 100), JNum (PInt 20), JNum (PInt 5))]\<rparr>
          else st\<lparr>invoice_ids := invoice_ids st @ [JStr iid],
                  math_errors := math_errors st @
                    [(JStr iid, JNum (PInt 125), JNum (PInt 130),
                      JNum (PInt 100), JNum (PInt 20), JNum (PInt 5))]\<rparr>)"
  "validate_record i no_id_record st =
     Inr (if JStr '''' \<in> set (invoice_ids st)
          then st\<lparr>missing_fields := missing_fields st @ [(i, ''invoice_id'')],
                  duplicate_ids := duplicate_ids st @ [JStr '''']\<rparr>
          else st\<lparr>missing_fields := missing_fields st @ [(i, ''invoice_id'')],
                  invoice_ids := invoice_ids st @ [JStr '''']\<rparr>)"
  "validate_record i no_id_no_vendor_record st =
     Inr (if JStr '''' \<in> set (invoice_ids st)
          then st\<lparr>missing_fields := missing_fields st @ [(i, ''invoice_id''), (i, ''vendor'')],
                  duplicate_ids := duplicate_ids st @ [JStr '''']\<rparr>
          else st\<lparr>missing_fields := missing_fields st @ [(i, ''invoice_id''), (i, ''vendor'')],
                  invoice_ids := invoice_ids st @ [JStr '''']\<rparr>)"
  "validate_record i Map.empty st =
     Inr (if JStr '''' \<in> set (invoice_ids st)
          then st\<lparr>missing_fields := missing_fields st @ check_fields i Map.empty,
                  duplicate_ids := duplicate_ids st @ [JStr '''']\<rparr>
          else st\<lparr>missing_fields := missing_fields st @ check_fields i Map.empty,
                  invoice_ids := invoice_ids st @ [JStr '''']\<rparr>)"
  by (simp_all add: validate_record_eq check_math_samples get_samples check_fields_samples
      py_in_JStr del: check_fields_samples(7))

lemma sample_validate_records: "validate_records 0 sample_data init_checks = Inr sample_checks"
  by (simp add: sample_data_def init_checks_def sample_checks_def validate_record_samples)

lemma sparse_validate_records: "validate_records 0 sparse_data init_checks = Inr sparse_checks"
  by (simp add: sparse_data_def init_checks_def sparse_checks_def validate_record_samples
      check_fields_samples)

lemma sample_plain: "list_all plain_record sample_data" and sparse_plain: "list_all plain_record sparse_data"
  by (simp_all add: sample_data_def sparse_data_def plain_samples)

lemma sample_ids:
  "\<forall>r \<in> set sample_data. r ''invoice_id'' \<noteq> None"
  "map (\<lambda>r. the (r ''invoice_id'')) sample_data =
     [JStr ''INV-2025-0001'', JStr ''INV-2025-0002'', JStr ''INV-2025-0001'',
      JStr ''INV-2025-0003'']"
  by (simp_all add: sample_data_def full_record_fields no_vendor_record_fields
      wrong_total_record_fields)

lemma sample_statistics:
  "gather_statistics sample_data ([], []) =
     ([(JStr ''USD'', 4)], [(JStr ''Acme'', 3), (JStr ''Unknown'', 1)])"
  by (simp add: sample_data_def count_key_def get_def full_record_fields
      no_vendor_record_fields wrong_total_record_fields)

lemma sample_results_of: "results_of sample_data sample_checks = sample_results"
  by (simp add: results_of_def sample_results_def sample_ids sample_statistics)

lemma sample_run_checks: "run_checks sample_data = Inr sample_results"
  using run_checks_plain [OF sample_plain sample_ids(1)] sample_validate_records
    sample_results_of by auto

lemma sample_validate_manifest:
  "validate_manifest sample_data = Inr (make_report sample_data sample_results)"
  by (simp add: validate_manifest_def sample_run_checks)

lemma sparse_validate_manifest: "validate_manifest sparse_data = Inl KeyError"
  by (rule run_checks_no_id(2) [OF sparse_plain])
    (simp add: sparse_data_def no_id_record_fields)

lemma sample_ids_all: "list_all (\<lambda>r. r ''invoice_id'' \<noteq> None) sample_data"
  using sample_ids(1) by (simp add: list_all_iff)
lemma validate_records_full:
  assumes "distinct ids" and "\<forall>s \<in> set ids. JStr s \<notin> set (invoice_ids st)"
  shows "validate_records i (map full_record ids) st =
           Inr (st\<lparr>invoice_ids := invoice_ids st @ map JStr ids\<rparr>)"
  using assms
proof (induction ids arbitrary: i st)
  case Nil
  then show ?case by simp
next
  case (Cons x xs)
  let ?st1 = "st\<lparr>invoice_ids := invoice_ids st @ [JStr x]\<rparr>"
  from Cons.prems have v: "validate_record i (full_record x) st = Inr ?st1"
    by (simp add: validate_record_samples)
  from Cons.prems have "distinct xs" "\<forall>s \<in> set xs. JStr s \<notin> set (invoice_ids ?st1)"
    by auto
  from Cons.IH [OF this, of "Suc i"] v show ?case
    by simp
qed

lemma complete_validate_records:
  "validate_records 0 complete_data init_checks = Inr complete_checks"
  using validate_records_full [OF distinct_expected_ids, of init_checks 0]
  by (simp add: complete_data_def complete_checks_def init_checks_def)

lemma complete_plain: "list_all plain_record complete_data"
  by (simp add: complete_data_def list_all_iff plain_samples)

lemma complete_ids:
  "\<forall>r \<in> set complete_data. r ''invoice_id'' \<noteq> None"
  "map (\<lambda>r. the (r ''invoice_id'')) complete_data = map JStr expected_ids"
  by (simp_all add: complete_data_def full_record_fields)

lemma complete_run_checks:
  "run_checks complete_data = Inr (results_of complete_data complete_checks)"
  using run_checks_plain [OF complete_plain complete_ids(1)] complete_validate_records
  by auto

lemma complete_no_diagnostics:
  "missing_fields (results_of complete_data complete_checks) = []"
  "duplicate_ids (results_of complete_data complete_checks) = []"
  "math_errors (results_of complete_data complete_checks) = []"
  "sequence_gaps (results_of complete_data complete_checks) = []"
  by (simp_all add: results_of_fields complete_checks_def init_checks_def complete_ids
      check_sequence_filter)

lemma complete_validate_manifest:
  "validate_manifest complete_data =
     Inr (make_report complete_data (results_of complete_data complete_checks))"
  by (simp add: validate_manifest_def complete_run_checks)

subsection \<open>The keys of the frequency maps\<close>

lemma py_eq_refl: "py_eq k k"
proof (cases k)
  case (JStr s)
  then show ?thesis by simp
next
  case (JNum a)
  show ?thesis
  proof (cases a)
    case (PInt i)
    with JNum show ?thesis by (simp add: num_eq_def)
  next
    case (PFloat f)
    with JNum show ?thesis by (cases f) (simp_all add: num_eq_def)
  qed
qed

lemma keys_dict_set:
  "map fst (dict_set d k v) =
     (if list_ex (py_eq k) (map fst d) then map fst d else map fst d @ [k])"
proof (induction d)
  case Nil
  then show ?case by simp
next
  case (Cons e d)
  obtain k' v' where e: "e = (k', v')" by (cases e)
  show ?case
    using Cons.IH by (simp add: e)
qed

lemma distinct_count_key:
  assumes "distinct (map fst d)"
  shows "distinct (map fst (count_key d k))"
proof (cases "list_ex (py_eq k) (map fst d)")
  case True
  with assms show ?thesis
    by (simp add: count_key_def keys_dict_set)
next
  case False
  then have "k \<notin> set (map fst d)"
    using py_eq_refl [of k] by (auto simp: list_ex_iff)
  with assms False show ?thesis
    by (simp add: count_key_def keys_dict_set)
qed

lemma gather_statistics_distinct:
  assumes "distinct (map fst cs)" and "distinct (map fst vs)"
  shows "distinct (map fst (fst (gather_statistics data (cs, vs)))) \<and>
         distinct (map fst (snd (gather_statistics data (cs, vs))))"
  using assms
  by (induction data arbitrary: cs vs) (simp_all add: distinct_count_key)

lemma complete_ids_all: "list_all (\<lambda>r. r ''invoice_id'' \<noteq> None) complete_data"
  using complete_ids(1) by (simp add: list_all_iff)
subsection \<open>The two tests of the tolerance\<close>







subsection \<open>A record without vendor, and the order of the set\<close>

text \<open>
  When every record has an \<^verbatim>\<open>invoice_id\<close>, a record without \<^verbatim>\<open>vendor\<close> has its one
  entry in \<open>missing_fields\<close> and is counted under \<^verbatim>\<open>"Unknown"\<close>.
\<close>

lemma missing_vendor_counted:
  assumes "list_all plain_record data" and "\<forall>r \<in> set data. r ''invoice_id'' \<noteq> None"
    and "i < length data" and "(data ! i) ''vendor'' = None"
  shows "\<exists>res. run_checks data = Inr res \<and>
           validate_manifest data = Inr (make_report data res) \<and>
           distinct (missing_fields res) \<and> (i, ''vendor'') \<in> set (missing_fields res) \<and>
           dict_get (vendors res) (JStr ''Unknown'') 0 =
             length (filter (\<lambda>r. get r ''vendor'' (JStr ''Unknown'') = JStr ''Unknown'') data) \<and>
           0 < dict_get (vendors res) (JStr ''Unknown'') 0"
proof -
  from run_checks_plain [OF assms(1,2)] obtain st
    where st: "validate_records 0 data init_checks = Inr st"
      and r: "run_checks data = Inr (results_of data st)" by blast
  have m: "missing_fields st = concat (map (\<lambda>(i, r). check_fields i r) (List.enumerate 0 data))"
    using validate_records_missing [OF st] by (simp add: init_checks_def)
  have d: "distinct (missing_fields (results_of data st))"
    unfolding results_of_fields m by (rule distinct_concat_check_fields)
  have e: "(i, ''vendor'') \<in> set (missing_fields (results_of data st))"
    unfolding results_of_fields m in_concat_check_fields
    using assms(3,4) by (simp add: required_fields_def)
  have c: "dict_get (vendors (results_of data st)) (JStr ''Unknown'') 0 =
      length (filter (\<lambda>r. get r ''vendor'' (JStr ''Unknown'') = JStr ''Unknown'') data)"
    using gather_statistics_count [of data "[]" "[]" "''Unknown''"]
    by (simp add: results_of_fields)
  have "data ! i \<in> set (filter (\<lambda>r. get r ''vendor'' (JStr ''Unknown'') = JStr ''Unknown'') data)"
    using assms(3,4) by (simp add: get_def)
  then have "0 < length (filter (\<lambda>r. get r ''vendor'' (JStr ''Unknown'') = JStr ''Unknown'') data)"
    by (metis length_pos_if_in_set)
  with c have p: "0 < dict_get (vendors (results_of data st)) (JStr ''Unknown'') 0"
    by simp
  have v: "validate_manifest data = Inr (make_report data (results_of data st))"
    by (simp add: validate_manifest_def r)
  from r v d e c p show ?thesis
    by blast
qed

text \<open>
  The set \<^verbatim>\<open>invoice_ids\<close> is the one container of the function whose internal order the
  dataset does not determine. The loop does not depend on it: from two states with the
  same members it raises the same exception or produces the same diagnostics.
\<close>

lemma py_in_same_members: "set xs = set ys \<Longrightarrow> py_in x xs = py_in x ys"
  by (simp add: py_in_def list_ex_iff)

lemma validate_record_same_members:
  assumes "same_members st1 st2"
  shows "rel_sum (=) same_members (validate_record i r st1) (validate_record i r st2)"
proof -
  from assms have s: "set (invoice_ids st1) = set (invoice_ids st2)"
    and f: "missing_fields st1 = missing_fields st2" "math_errors st1 = math_errors st2"
      "duplicate_ids st1 = duplicate_ids st2"
    by (simp_all add: same_members_def)
  note p = py_in_same_members [OF s]
  show ?thesis
    by (cases "check_math r (get r ''invoice_id'' (JStr ''''))")
      (auto simp: validate_record_def check_duplicate_def Let_def p f s same_members_def)
qed

lemma validate_records_same_members:
  assumes "same_members st1 st2"
  shows "rel_sum (=) same_members (validate_records i data st1) (validate_records i data st2)"
  using assms
proof (induction data arbitrary: i st1 st2)
  case Nil
  then show ?case by simp
next
  case (Cons r rs)
  note h = validate_record_same_members [OF Cons.prems, of i r]
  show ?case
  proof (cases "validate_record i r st1")
    case (Inl e)
    with h show ?thesis
      by (cases "validate_record i r st2") simp_all
  next
    case (Inr a)
    with h obtain b where "validate_record i r st2 = Inr b" and "same_members a b"
      by (cases "validate_record i r st2") simp_all
    with Inr Cons.IH [of a b "Suc i"] show ?thesis
      by simp
  qed
qed
section \<open>The claims\<close>

text \<open>
  C6. There are eleven required fields. Whenever the loop over the records completes, and
  it does on every dataset of plain records, whichever of their fields are absent,
  \<open>missing_fields\<close> holds exactly one entry, tagged with the index of the record and the
  name of the field, for each required field that a record lacks, in the order of the
  records and of the fields; so it is empty if and only if every record contains all
  eleven required fields. When every record has an \<^verbatim>\<open>invoice_id\<close> the function returns
  a report whose count is the length of that list; otherwise it raises \<^verbatim>\<open>KeyError\<close>
  after the loop and returns no report.
\<close>

theorem missing_fields_complete:
  "required_fields =
     [''invoice_id'', ''vendor'', ''currency'', ''invoice_date'', ''due_date'', ''terms'',
      ''subtotal'', ''tax'', ''shipping'', ''total'', ''file_path''] \<and>
   length required_fields = 11 \<and>
   (\<forall>st. validate_records 0 data init_checks = Inr st \<longrightarrow>
      missing_fields st =
        concat (map (\<lambda>(i, r). map (Pair i) (filter (\<lambda>f. r f = None) required_fields))
                  (List.enumerate 0 data)) \<and>
      distinct (missing_fields st) \<and>
      (\<forall>i f. (i, f) \<in> set (missing_fields st) \<longleftrightarrow>
         i < length data \<and> f \<in> set required_fields \<and> (data ! i) f = None) \<and>
      (missing_fields st = [] \<longleftrightarrow>
         (\<forall>r \<in> set data. \<forall>f \<in> set required_fields. r f \<noteq> None))) \<and>
   (list_all plain_record data \<longrightarrow>
      (\<exists>st. validate_records 0 data init_checks = Inr st \<and>
         (if \<forall>r \<in> set data. r ''invoice_id'' \<noteq> None
          then \<exists>res. run_checks data = Inr res \<and>
                 missing_fields res = missing_fields st \<and>
                 validate_manifest data = Inr (make_report data res) \<and>
                 missing_fields_len (make_report data res) = length (missing_fields st)
          else validate_manifest data = Inl KeyError)))"
proof (intro conjI allI impI)
  show "required_fields =
     [''invoice_id'', ''vendor'', ''currency'', ''invoice_date'', ''due_date'', ''terms'',
      ''subtotal'', ''tax'', ''shipping'', ''total'', ''file_path'']"
    by (simp add: required_fields_def)
  show "length required_fields = 11"
    by (simp add: required_fields_def)
next
  fix st
  assume a: "validate_records 0 data init_checks = Inr st"
  have m: "missing_fields st = concat (map (\<lambda>(i, r). check_fields i r) (List.enumerate 0 data))"
    using validate_records_missing [OF a] by (simp add: init_checks_def)
  show "missing_fields st =
        concat (map (\<lambda>(i, r). map (Pair i) (filter (\<lambda>f. r f = None) required_fields))
                  (List.enumerate 0 data))"
    by (simp only: m check_fields_def)
  show "distinct (missing_fields st)"
    unfolding m by (rule distinct_concat_check_fields)
  show "(i, f) \<in> set (missing_fields st) \<longleftrightarrow>
         i < length data \<and> f \<in> set required_fields \<and> (data ! i) f = None" for i f
    unfolding m in_concat_check_fields by simp
  show "missing_fields st = [] \<longleftrightarrow>
         (\<forall>r \<in> set data. \<forall>f \<in> set required_fields. r f \<noteq> None)"
    unfolding m by (rule concat_check_fields_Nil)
next
  assume p: "list_all plain_record data"
  from validate_records_total [OF p] obtain st
    where st: "validate_records 0 data init_checks = Inr st" by blast
  have "if \<forall>r \<in> set data. r ''invoice_id'' \<noteq> None
        then \<exists>res. run_checks data = Inr res \<and>
               missing_fields res = missing_fields st \<and>
               validate_manifest data = Inr (make_report data res) \<and>
               missing_fields_len (make_report data res) = length (missing_fields st)
        else validate_manifest data = Inl KeyError"
  proof (cases "\<forall>r \<in> set data. r ''invoice_id'' \<noteq> None")
    case True
    from run_checks_plain [OF p True] st
    have r: "run_checks data = Inr (results_of data st)"
      by auto
    have "missing_fields (results_of data st) = missing_fields st"
      by (simp add: results_of_fields)
    moreover have "validate_manifest data = Inr (make_report data (results_of data st))"
      by (simp add: validate_manifest_def r)
    moreover have "missing_fields_len (make_report data (results_of data st)) =
        length (missing_fields st)"
      by (simp add: make_report_def results_of_fields)
    ultimately show ?thesis
      using True r by auto
  next
    case False
    then have "\<exists>r \<in> set data. r ''invoice_id'' = None"
      by simp
    from run_checks_no_id(2) [OF p this] False show ?thesis
      by simp
  qed
  with st show "\<exists>st. validate_records 0 data init_checks = Inr st \<and>
         (if \<forall>r \<in> set data. r ''invoice_id'' \<noteq> None
          then \<exists>res. run_checks data = Inr res \<and>
                 missing_fields res = missing_fields st \<and>
                 validate_manifest data = Inr (make_report data res) \<and>
                 missing_fields_len (make_report data res) = length (missing_fields st)
          else validate_manifest data = Inl KeyError)"
    by blast
qed

theorem missing_fields_complete_witness:
  "list_all plain_record sparse_data \<and>
   validate_records 0 sparse_data init_checks = Inr sparse_checks \<and>
   missing_fields sparse_checks =
     [(0, ''invoice_id''), (1, ''vendor''),
      (2, ''invoice_id''), (2, ''vendor''), (2, ''currency''), (2, ''invoice_date''),
      (2, ''due_date''), (2, ''terms''), (2, ''subtotal''), (2, ''tax''),
      (2, ''shipping''), (2, ''total''), (2, ''file_path'')] \<and>
   missing_fields sparse_checks =
     concat (map (\<lambda>(i, r). map (Pair i) (filter (\<lambda>f. r f = None) required_fields))
               (List.enumerate 0 sparse_data)) \<and>
   distinct (missing_fields sparse_checks) \<and>
   \<not> (\<forall>r \<in> set sparse_data. \<forall>f \<in> set required_fields. r f \<noteq> None) \<and>
   \<not> (\<forall>r \<in> set sparse_data. r ''invoice_id'' \<noteq> None) \<and>
   validate_manifest sparse_data = Inl KeyError"
proof -
  note t = missing_fields_complete [of sparse_data]
  from t sparse_validate_records
  have a: "missing_fields sparse_checks =
      concat (map (\<lambda>(i, r). map (Pair i) (filter (\<lambda>f. r f = None) required_fields))
                (List.enumerate 0 sparse_data))"
    and b: "distinct (missing_fields sparse_checks)"
    and c: "missing_fields sparse_checks = [] \<longleftrightarrow>
      (\<forall>r \<in> set sparse_data. \<forall>f \<in> set required_fields. r f \<noteq> None)"
    by blast+
  have d: "missing_fields sparse_checks =
     [(0, ''invoice_id''), (1, ''vendor''),
      (2, ''invoice_id''), (2, ''vendor''), (2, ''currency''), (2, ''invoice_date''),
      (2, ''due_date''), (2, ''terms''), (2, ''subtotal''), (2, ''tax''),
      (2, ''shipping''), (2, ''total''), (2, ''file_path'')]"
    by (simp add: sparse_checks_def)
  from c d have e: "\<not> (\<forall>r \<in> set sparse_data. \<forall>f \<in> set required_fields. r f \<noteq> None)"
    by simp
  have f: "\<not> (\<forall>r \<in> set sparse_data. r ''invoice_id'' \<noteq> None)"
    by (simp add: sparse_data_def no_id_record_fields)
  have "\<exists>st. validate_records 0 sparse_data init_checks = Inr st \<and>
      (if \<forall>r \<in> set sparse_data. r ''invoice_id'' \<noteq> None
       then \<exists>res. run_checks sparse_data = Inr res \<and>
              missing_fields res = missing_fields st \<and>
              validate_manifest sparse_data = Inr (make_report sparse_data res) \<and>
              missing_fields_len (make_report sparse_data res) = length (missing_fields st)
       else validate_manifest sparse_data = Inl KeyError)"
    by (rule mp [OF t [THEN conjunct2, THEN conjunct2, THEN conjunct2] sparse_plain])
  then obtain st where x: "validate_records 0 sparse_data init_checks = Inr st \<and>
      (if \<forall>r \<in> set sparse_data. r ''invoice_id'' \<noteq> None
       then \<exists>res. run_checks sparse_data = Inr res \<and>
              missing_fields res = missing_fields st \<and>
              validate_manifest sparse_data = Inr (make_report sparse_data res) \<and>
              missing_fields_len (make_report sparse_data res) = length (missing_fields st)
       else validate_manifest sparse_data = Inl KeyError)" ..
  from x [THEN conjunct2]
  have g: "validate_manifest sparse_data = Inl KeyError"
    by (simp only: f if_False)
  from sparse_plain sparse_validate_records d a b e f g show ?thesis
    by blast
qed

text \<open>
  C8. For the empty dataset the function returns a report with \<open>total_records = 0\<close>,
  120 sequence gaps and \<open>passed = False\<close>; the list of the sequence gaps is the whole
  list of the 120 expected IDs, from \<^verbatim>\<open>INV-2025-0001\<close> to \<^verbatim>\<open>INV-2025-0120\<close>.
\<close>

theorem empty_dataset_fails:
  "validate_manifest [] =
     Inr \<lparr>total_records = 0, missing_fields_len = 0, duplicate_ids_len = 0,
          math_errors_len = 0, sequence_gaps_len = 120, currencies_stat = [],
          vendors_stat = [], passed = False\<rparr> \<and>
   run_checks [] =
     Inr (checks.extend init_checks
            \<lparr>sequence_gaps = expected_ids, currencies = [], vendors = []\<rparr>) \<and>
   length expected_ids = 120 \<and>
   hd expected_ids = ''INV-2025-0001'' \<and> last expected_ids = ''INV-2025-0120''"
proof -
  have r: "run_checks [] =
     Inr (checks.extend init_checks
            \<lparr>sequence_gaps = expected_ids, currencies = [], vendors = []\<rparr>)"
    by (simp add: run_checks_def check_sequence_Nil)
  have e: "expected_ids \<noteq> []"
    using length_expected_ids by auto
  have "validate_manifest [] =
     Inr \<lparr>total_records = 0, missing_fields_len = 0, duplicate_ids_len = 0,
          math_errors_len = 0, sequence_gaps_len = 120, currencies_stat = [],
          vendors_stat = [], passed = False\<rparr>"
    by (simp add: validate_manifest_def r make_report_def has_errors_def
          extend_fields init_checks_def length_expected_ids e)
  with r length_expected_ids hd_expected_ids last_expected_ids show ?thesis
    by blast
qed

text \<open>
  C2. A dataset whose one record has every required field but \<^verbatim>\<open>invoice_id\<close>: the
  loop over the records completes and records the missing field, and the list
  comprehension \<^verbatim>\<open>[record['invoice_id'] for record in data]\<close> then raises \<^verbatim>\<open>KeyError\<close>;
  no report is returned.
\<close>

theorem missing_invoice_id_raises:
  "no_id_record ''invoice_id'' = None \<and>
   validate_records 0 [no_id_record] init_checks =
     Inr \<lparr>invoice_ids = [JStr ''''], missing_fields = [(0, ''invoice_id'')],
          math_errors = [], duplicate_ids = []\<rparr> \<and>
   actual_ids [no_id_record] = Inl KeyError \<and>
   validate_manifest [no_id_record] = Inl KeyError"
proof -
  have v: "validate_records 0 [no_id_record] init_checks =
     Inr \<lparr>invoice_ids = [JStr ''''], missing_fields = [(0, ''invoice_id'')],
          math_errors = [], duplicate_ids = []\<rparr>"
    by (simp add: validate_record_samples init_checks_def)
  have a: "actual_ids [no_id_record] = Inl KeyError"
    by (simp add: subscript_def no_id_record_fields)
  have "validate_manifest [no_id_record] = Inl KeyError"
    unfolding validate_manifest_def run_checks_def v a by simp
  with v a no_id_record_fields(1) show ?thesis
    by blast
qed

text \<open>
  C7. A dataset whose one record omits \<^verbatim>\<open>vendor\<close> and \<^verbatim>\<open>invoice_id\<close>: the loop over
  the records completes, with the two missing fields recorded and the empty string taken
  for the ID, and the function then raises \<^verbatim>\<open>KeyError\<close>: there is no report in which
  the record has its \<open>missing_fields\<close> entry and its count under \<^verbatim>\<open>"Unknown"\<close>.
\<close>

theorem missing_vendor_and_id_raises:
  "no_id_no_vendor_record ''vendor'' = None \<and>
   no_id_no_vendor_record ''invoice_id'' = None \<and>
   validate_records 0 [no_id_no_vendor_record] init_checks =
     Inr \<lparr>invoice_ids = [JStr ''''],
          missing_fields = [(0, ''invoice_id''), (0, ''vendor'')],
          math_errors = [], duplicate_ids = []\<rparr> \<and>
   gather_statistics [no_id_no_vendor_record] ([], []) =
     ([(JStr ''USD'', 1)], [(JStr ''Unknown'', 1)]) \<and>
   validate_manifest [no_id_no_vendor_record] = Inl KeyError"
proof -
  have v: "validate_records 0 [no_id_no_vendor_record] init_checks =
     Inr \<lparr>invoice_ids = [JStr ''''],
          missing_fields = [(0, ''invoice_id''), (0, ''vendor'')],
          math_errors = [], duplicate_ids = []\<rparr>"
    by (simp add: validate_record_samples init_checks_def)
  have a: "actual_ids [no_id_no_vendor_record] = Inl KeyError"
    by (simp add: subscript_def no_id_no_vendor_record_fields)
  have g: "gather_statistics [no_id_no_vendor_record] ([], []) =
     ([(JStr ''USD'', 1)], [(JStr ''Unknown'', 1)])"
    by (simp add: count_key_def get_def no_id_no_vendor_record_fields)
  have "validate_manifest [no_id_no_vendor_record] = Inl KeyError"
    unfolding validate_manifest_def run_checks_def v a by simp
  with v g no_id_no_vendor_record_fields(1,2) show ?thesis
    by blast
qed
text \<open>
  C1. Whenever the function returns its report, the four counts of the report are the
  lengths of the four lists \<open>missing_fields\<close>, \<open>duplicate_ids\<close>, \<open>math_errors\<close> and
  \<open>sequence_gaps\<close> at the \<^verbatim>\<open>return\<close> statement, and \<open>passed\<close> is true if and only if
  the four lists are all empty, that is, if and only if the four counts are zero. The
  function returns its report on every dataset of plain records that all have an
  \<^verbatim>\<open>invoice_id\<close>.
\<close>

theorem passed_iff_no_diagnostics:
  "(\<forall>rep. validate_manifest data = Inr rep \<longrightarrow>
      (\<exists>res. run_checks data = Inr res \<and> rep = make_report data res \<and>
         missing_fields_len rep = length (missing_fields res) \<and>
         duplicate_ids_len rep = length (duplicate_ids res) \<and>
         math_errors_len rep = length (math_errors res) \<and>
         sequence_gaps_len rep = length (sequence_gaps res) \<and>
         (passed rep \<longleftrightarrow>
            missing_fields res = [] \<and> duplicate_ids res = [] \<and>
            math_errors res = [] \<and> sequence_gaps res = []) \<and>
         (passed rep \<longleftrightarrow>
            missing_fields_len rep = 0 \<and> duplicate_ids_len rep = 0 \<and>
            math_errors_len rep = 0 \<and> sequence_gaps_len rep = 0))) \<and>
   (list_all plain_record data \<and> (\<forall>r \<in> set data. r ''invoice_id'' \<noteq> None) \<longrightarrow>
      (\<exists>rep. validate_manifest data = Inr rep))"
proof (intro conjI allI impI)
  fix rep
  assume "validate_manifest data = Inr rep"
  from validate_manifest_Inr [OF this] obtain res
    where r: "run_checks data = Inr res" and rep: "rep = make_report data res"
    by blast
  have l: "missing_fields_len rep = length (missing_fields res)"
    "duplicate_ids_len rep = length (duplicate_ids res)"
    "math_errors_len rep = length (math_errors res)"
    "sequence_gaps_len rep = length (sequence_gaps res)"
    by (simp_all add: rep make_report_def)
  have p: "passed rep \<longleftrightarrow>
          missing_fields res = [] \<and> duplicate_ids res = [] \<and>
          math_errors res = [] \<and> sequence_gaps res = []"
    by (auto simp: rep make_report_def has_errors_def)
  have q: "passed rep \<longleftrightarrow>
          missing_fields_len rep = 0 \<and> duplicate_ids_len rep = 0 \<and>
          math_errors_len rep = 0 \<and> sequence_gaps_len rep = 0"
    unfolding p l by simp
  from r rep l p q
  show "\<exists>res. run_checks data = Inr res \<and> rep = make_report data res \<and>
         missing_fields_len rep = length (missing_fields res) \<and>
         duplicate_ids_len rep = length (duplicate_ids res) \<and>
         math_errors_len rep = length (math_errors res) \<and>
         sequence_gaps_len rep = length (sequence_gaps res) \<and>
         (passed rep \<longleftrightarrow>
            missing_fields res = [] \<and> duplicate_ids res = [] \<and>
            math_errors res = [] \<and> sequence_gaps res = []) \<and>
         (passed rep \<longleftrightarrow>
            missing_fields_len rep = 0 \<and> duplicate_ids_len rep = 0 \<and>
            math_errors_len rep = 0 \<and> sequence_gaps_len rep = 0)"
    by blast
next
  assume "list_all plain_record data \<and> (\<forall>r \<in> set data. r ''invoice_id'' \<noteq> None)"
  then have "list_all plain_record data" "\<forall>r \<in> set data. r ''invoice_id'' \<noteq> None"
    by simp_all
  from run_checks_plain [OF this] obtain st
    where "run_checks data = Inr (results_of data st)" by blast
  then show "\<exists>rep. validate_manifest data = Inr rep"
    by (simp add: validate_manifest_def)
qed

theorem passed_iff_no_diagnostics_witness:
  "list_all plain_record sample_data \<and> list_all (\<lambda>r. r ''invoice_id'' \<noteq> None) sample_data \<and>
   validate_manifest sample_data = Inr (make_report sample_data sample_results) \<and>
   \<not> passed (make_report sample_data sample_results) \<and>
   missing_fields_len (make_report sample_data sample_results) = 1 \<and>
   duplicate_ids_len (make_report sample_data sample_results) = 1 \<and>
   math_errors_len (make_report sample_data sample_results) = 1 \<and>
   list_all plain_record complete_data \<and>
   list_all (\<lambda>r. r ''invoice_id'' \<noteq> None) complete_data \<and>
   validate_manifest complete_data =
     Inr (make_report complete_data (results_of complete_data complete_checks)) \<and>
   passed (make_report complete_data (results_of complete_data complete_checks))"
proof -
  let ?rep = "make_report sample_data sample_results"
  let ?rep' = "make_report complete_data (results_of complete_data complete_checks)"
  from passed_iff_no_diagnostics [of sample_data, THEN conjunct1, THEN spec, THEN mp,
      OF sample_validate_manifest]
  obtain res where r: "run_checks sample_data = Inr res"
    and l: "missing_fields_len ?rep = length (missing_fields res)"
      "duplicate_ids_len ?rep = length (duplicate_ids res)"
      "math_errors_len ?rep = length (math_errors res)"
    and p: "passed ?rep \<longleftrightarrow>
        missing_fields res = [] \<and> duplicate_ids res = [] \<and>
        math_errors res = [] \<and> sequence_gaps res = []"
    by blast
  from r sample_run_checks have res: "res = sample_results"
    by simp
  have f: "missing_fields sample_results = [(1, ''vendor'')]"
    "duplicate_ids sample_results = [JStr ''INV-2025-0001'']"
    "length (math_errors sample_results) = 1"
    by (simp_all add: sample_results_def sample_checks_def extend_fields)
  from l p f have a: "\<not> passed ?rep" "missing_fields_len ?rep = 1"
    "duplicate_ids_len ?rep = 1" "math_errors_len ?rep = 1"
    unfolding res by simp_all
  from passed_iff_no_diagnostics [of complete_data, THEN conjunct1, THEN spec, THEN mp,
      OF complete_validate_manifest]
  obtain res' where r': "run_checks complete_data = Inr res'"
    and p': "passed ?rep' \<longleftrightarrow>
        missing_fields res' = [] \<and> duplicate_ids res' = [] \<and>
        math_errors res' = [] \<and> sequence_gaps res' = []"
    by blast
  from r' complete_run_checks have "res' = results_of complete_data complete_checks"
    by simp
  with p' complete_no_diagnostics have b: "passed ?rep'"
    by simp
  from sample_plain sample_ids_all sample_validate_manifest a complete_plain complete_ids_all
    complete_validate_manifest b
  show ?thesis
    by blast
qed

text \<open>
  C10. The counts of the frequency map of the currencies add up to the number of the
  records, and so do those of the vendors: every record adds one to the count of its value,
  or of \<^verbatim>\<open>"Unknown"\<close> when the field is absent. The keys of each map are distinct, and
  the count of a string is the number of the records with that value. A report that the
  function returns carries these two maps and the number of the records as
  \<open>total_records\<close>.
\<close>

theorem frequency_counts_sum:
  "sum_list (map snd (fst (gather_statistics data ([], [])))) = length data \<and>
   sum_list (map snd (snd (gather_statistics data ([], [])))) = length data \<and>
   distinct (map fst (fst (gather_statistics data ([], [])))) \<and>
   distinct (map fst (snd (gather_statistics data ([], [])))) \<and>
   (\<forall>s. dict_get (fst (gather_statistics data ([], []))) (JStr s) 0 =
      length (filter (\<lambda>r. (case r ''currency'' of None \<Rightarrow> JStr ''Unknown'' | Some v \<Rightarrow> v) = JStr s) data)) \<and>
   (\<forall>s. dict_get (snd (gather_statistics data ([], []))) (JStr s) 0 =
      length (filter (\<lambda>r. (case r ''vendor'' of None \<Rightarrow> JStr ''Unknown'' | Some v \<Rightarrow> v) = JStr s) data)) \<and>
   (\<forall>rep. validate_manifest data = Inr rep \<longrightarrow>
      total_records rep = length data \<and>
      currencies_stat rep = fst (gather_statistics data ([], [])) \<and>
      vendors_stat rep = snd (gather_statistics data ([], [])) \<and>
      sum_list (map snd (currencies_stat rep)) = total_records rep \<and>
      sum_list (map snd (vendors_stat rep)) = total_records rep) \<and>
   (list_all plain_record data \<and> (\<forall>r \<in> set data. r ''invoice_id'' \<noteq> None) \<longrightarrow>
      (\<exists>rep. validate_manifest data = Inr rep))"
proof -
  note s = gather_statistics_sum [of data "[]" "[]"]
  note d = gather_statistics_distinct [of "[]" "[]" data]
  note c = gather_statistics_count [of data "[]" "[]"]
  have 1: "sum_list (map snd (fst (gather_statistics data ([], [])))) = length data"
    and 2: "sum_list (map snd (snd (gather_statistics data ([], [])))) = length data"
    using s by simp_all
  have 3: "distinct (map fst (fst (gather_statistics data ([], []))))"
    and 4: "distinct (map fst (snd (gather_statistics data ([], []))))"
    using d by simp_all
  have 5: "\<forall>s. dict_get (fst (gather_statistics data ([], []))) (JStr s) 0 =
      length (filter (\<lambda>r. (case r ''currency'' of None \<Rightarrow> JStr ''Unknown'' | Some v \<Rightarrow> v) = JStr s) data)"
    and 6: "\<forall>s. dict_get (snd (gather_statistics data ([], []))) (JStr s) 0 =
      length (filter (\<lambda>r. (case r ''vendor'' of None \<Rightarrow> JStr ''Unknown'' | Some v \<Rightarrow> v) = JStr s) data)"
    using c by (simp_all add: get_def)
  have 7: "\<forall>rep. validate_manifest data = Inr rep \<longrightarrow>
      total_records rep = length data \<and>
      currencies_stat rep = fst (gather_statistics data ([], [])) \<and>
      vendors_stat rep = snd (gather_statistics data ([], [])) \<and>
      sum_list (map snd (currencies_stat rep)) = total_records rep \<and>
      sum_list (map snd (vendors_stat rep)) = total_records rep"
  proof (intro allI impI)
    fix rep
    assume "validate_manifest data = Inr rep"
    from validate_manifest_Inr [OF this] obtain res
      where r: "run_checks data = Inr res" and rep: "rep = make_report data res"
      by blast
    from run_checks_Inr [OF r] obtain st where res: "res = results_of data st"
      by blast
    show "total_records rep = length data \<and>
      currencies_stat rep = fst (gather_statistics data ([], [])) \<and>
      vendors_stat rep = snd (gather_statistics data ([], [])) \<and>
      sum_list (map snd (currencies_stat rep)) = total_records rep \<and>
      sum_list (map snd (vendors_stat rep)) = total_records rep"
      by (simp add: rep res make_report_def results_of_fields 1 2)
  qed
  have 8: "list_all plain_record data \<and> (\<forall>r \<in> set data. r ''invoice_id'' \<noteq> None) \<longrightarrow>
      (\<exists>rep. validate_manifest data = Inr rep)"
  proof
    assume "list_all plain_record data \<and> (\<forall>r \<in> set data. r ''invoice_id'' \<noteq> None)"
    then have "list_all plain_record data" "\<forall>r \<in> set data. r ''invoice_id'' \<noteq> None"
      by simp_all
    from run_checks_plain [OF this] obtain st
      where "run_checks data = Inr (results_of data st)" by blast
    then show "\<exists>rep. validate_manifest data = Inr rep"
      by (simp add: validate_manifest_def)
  qed
  from 1 2 3 4 5 6 7 8 show ?thesis
    by blast
qed

theorem frequency_counts_sum_witness:
  "list_all plain_record sample_data \<and> list_all (\<lambda>r. r ''invoice_id'' \<noteq> None) sample_data \<and>
   validate_manifest sample_data = Inr (make_report sample_data sample_results) \<and>
   currencies_stat (make_report sample_data sample_results) = [(JStr ''USD'', 4)] \<and>
   vendors_stat (make_report sample_data sample_results) =
     [(JStr ''Acme'', 3), (JStr ''Unknown'', 1)] \<and>
   total_records (make_report sample_data sample_results) = 4 \<and>
   sum_list (map snd (currencies_stat (make_report sample_data sample_results))) =
     total_records (make_report sample_data sample_results) \<and>
   sum_list (map snd (vendors_stat (make_report sample_data sample_results))) =
     total_records (make_report sample_data sample_results)"
proof -
  let ?rep = "make_report sample_data sample_results"
  from frequency_counts_sum [of sample_data] sample_validate_manifest
  have s: "sum_list (map snd (currencies_stat ?rep)) = total_records ?rep"
    "sum_list (map snd (vendors_stat ?rep)) = total_records ?rep"
    "currencies_stat ?rep = fst (gather_statistics sample_data ([], []))"
    "vendors_stat ?rep = snd (gather_statistics sample_data ([], []))"
    "total_records ?rep = length sample_data"
    by blast+
  from s(3,4) have c: "currencies_stat ?rep = [(JStr ''USD'', 4)]"
    "vendors_stat ?rep = [(JStr ''Acme'', 3), (JStr ''Unknown'', 1)]"
    by (simp_all add: sample_statistics)
  from s(5) have n: "total_records ?rep = 4"
    by (simp add: sample_data_def)
  from sample_plain sample_ids_all sample_validate_manifest c n s(1,2) show ?thesis
    by blast
qed
text \<open>
  C5. On a dataset of plain records that all have an \<^verbatim>\<open>invoice_id\<close>, the loop and the
  function return, \<open>duplicate_ids\<close> holds each occurrence of an ID after its first one,
  in the order of the records, and so its length, the count of the report, is the number
  of the records minus the number of the distinct IDs.
\<close>

theorem duplicate_ids_count:
  assumes "list_all plain_record data" and "\<forall>r \<in> set data. r ''invoice_id'' \<noteq> None"
  shows "\<exists>st res. validate_records 0 data init_checks = Inr st \<and>
           run_checks data = Inr res \<and>
           validate_manifest data = Inr (make_report data res) \<and>
           duplicate_ids res = duplicate_ids st \<and>
           duplicate_ids st = repeats (map (\<lambda>r. the (r ''invoice_id'')) data) \<and>
           length (duplicate_ids st) =
             length data - card ((\<lambda>r. the (r ''invoice_id'')) ` set data) \<and>
           duplicate_ids_len (make_report data res) =
             length data - card ((\<lambda>r. the (r ''invoice_id'')) ` set data)"
proof -
  from run_checks_plain [OF assms] obtain st
    where st: "validate_records 0 data init_checks = Inr st"
      and r: "run_checks data = Inr (results_of data st)" by blast
  have g: "get r ''invoice_id'' (JStr '''') = the (r ''invoice_id'')" if "r \<in> set data" for r
    using that assms(2) by (auto simp: get_def)
  have s: "\<forall>r \<in> set data. \<exists>s. get r ''invoice_id'' (JStr '''') = JStr s"
    using assms(1) plain_record_inv_id(1) by (auto simp: list_all_iff)
  have m: "map (\<lambda>r. get r ''invoice_id'' (JStr '''')) data =
      map (\<lambda>r. the (r ''invoice_id'')) data"
    using g by simp
  from validate_records_ids [OF st s]
  have d: "duplicate_ids st = repeats (map (\<lambda>r. the (r ''invoice_id'')) data)"
    by (simp add: init_checks_def m later_repeats_repeats)
  from validate_records_ids [OF st s]
  have l: "length (duplicate_ids st) =
      length data - card ((\<lambda>r. the (r ''invoice_id'')) ` set data)"
    by (simp add: init_checks_def m later_repeats_length)
  have v: "validate_manifest data = Inr (make_report data (results_of data st))"
    by (simp add: validate_manifest_def r)
  have e: "duplicate_ids (results_of data st) = duplicate_ids st"
    by (simp add: results_of_fields)
  have n: "duplicate_ids_len (make_report data (results_of data st)) =
      length data - card ((\<lambda>r. the (r ''invoice_id'')) ` set data)"
    using l by (simp add: make_report_def e)
  from st r v e d l n show ?thesis
    by blast
qed

theorem duplicate_ids_count_witness:
  "list_all plain_record sample_data \<and> list_all (\<lambda>r. r ''invoice_id'' \<noteq> None) sample_data \<and>
   validate_records 0 sample_data init_checks = Inr sample_checks \<and>
   run_checks sample_data = Inr sample_results \<and>
   duplicate_ids sample_checks = [JStr ''INV-2025-0001''] \<and>
   duplicate_ids sample_checks = repeats (map (\<lambda>r. the (r ''invoice_id'')) sample_data) \<and>
   length sample_data = 4 \<and>
   card ((\<lambda>r. the (r ''invoice_id'')) ` set sample_data) = 3 \<and>
   duplicate_ids_len (make_report sample_data sample_results) =
     length sample_data - card ((\<lambda>r. the (r ''invoice_id'')) ` set sample_data)"
proof -
  from duplicate_ids_count [OF sample_plain sample_ids(1)] obtain st res
    where st: "validate_records 0 sample_data init_checks = Inr st"
      and r: "run_checks sample_data = Inr res"
      and d: "duplicate_ids st = repeats (map (\<lambda>r. the (r ''invoice_id'')) sample_data)"
      and n: "duplicate_ids_len (make_report sample_data res) =
        length sample_data - card ((\<lambda>r. the (r ''invoice_id'')) ` set sample_data)"
    by blast
  from st sample_validate_records have 1: "st = sample_checks" by simp
  from r sample_run_checks have 2: "res = sample_results" by simp
  have 3: "duplicate_ids sample_checks = [JStr ''INV-2025-0001'']"
    by (simp add: sample_checks_def)
  have "(\<lambda>r. the (r ''invoice_id'')) ` set sample_data =
      set (map (\<lambda>r. the (r ''invoice_id'')) sample_data)"
    by simp
  also have "\<dots> = {JStr ''INV-2025-0001'', JStr ''INV-2025-0002'', JStr ''INV-2025-0003''}"
    unfolding sample_ids(2) by auto
  finally have 4: "card ((\<lambda>r. the (r ''invoice_id'')) ` set sample_data) = 3"
    by simp
  have 5: "length sample_data = 4"
    by (simp add: sample_data_def)
  from sample_plain sample_ids_all sample_validate_records sample_run_checks 3
    d [unfolded 1] 5 4 n [unfolded 2]
  show ?thesis
    by blast
qed





end
